theory Spec2Isabelle
  imports Main "HOL-Library.Word"
begin

unbundle bit_operations_syntax

section \<open>Machine model\<close>

text \<open>
  The firmware is single threaded and owns its hardware. Its only effects are writes to
  memory-mapped registers, reads of memory-mapped registers and counted busy-wait
  loops. The model keeps the driver's static variables in a record and logs every
  register access and every busy-wait, in program order, in the field \<open>trace\<close>.
  A register read is volatile: the value of the \<open>k\<close>-th read is \<open>hw_in k\<close>, an
  arbitrary function of the environment, and \<open>nreads\<close> counts the reads done so far.
\<close>

type_synonym u8 = "8 word"
type_synonym u32 = "32 word"

datatype hw_event =
    RegWrite u32 u32   \<comment> \<open>\<open>REG_WRITE(addr, val)\<close>\<close>
  | RegRead u32        \<comment> \<open>\<open>REG_READ(addr)\<close>\<close>
  | BusyWait nat       \<comment> \<open>an empty counted loop of that many iterations\<close>

record machine =
  i2c_delay_cycles :: u32       \<comment> \<open>\<open>static uint32_t i2c_delay_cycles\<close> (i2c.c)\<close>
  scl_gpio :: int               \<comment> \<open>\<open>static int scl_gpio\<close> (i2c.c)\<close>
  sda_gpio :: int               \<comment> \<open>\<open>static int sda_gpio\<close> (i2c.c)\<close>
  ssd1306_buffer :: "u8 list"   \<comment> \<open>\<open>static uint8_t ssd1306_buffer[128 * 64 / 8]\<close>\<close>
  ssd1306_i2c_addr :: u8        \<comment> \<open>\<open>static uint8_t ssd1306_i2c_addr\<close>\<close>
  trace :: "hw_event list"
  hw_in :: "nat \<Rightarrow> u32"
  nreads :: nat

subsection \<open>Register map and access macros (i2c.c)\<close>

definition GPIO_BASE :: u32 where "GPIO_BASE = 0x60004000"
definition IO_MUX_BASE :: u32 where "IO_MUX_BASE = 0x60009000"
definition GPIO_ENABLE_REG :: u32 where "GPIO_ENABLE_REG = GPIO_BASE + 0x0020"
definition GPIO_OUT_W1TS_REG :: u32 where "GPIO_OUT_W1TS_REG = GPIO_BASE + 0x0008"
definition GPIO_OUT_W1TC_REG :: u32 where "GPIO_OUT_W1TC_REG = GPIO_BASE + 0x000C"
definition GPIO_IN_REG :: u32 where "GPIO_IN_REG = GPIO_BASE + 0x003C"

definition GPIO_PIN_MUX_REG :: "int \<Rightarrow> u32" where
  "GPIO_PIN_MUX_REG n = IO_MUX_BASE + 0x0004 + (word_of_int n * 4)"

definition FUN_IE :: u32 where "FUN_IE = push_bit 9 1"
definition FUN_DRV_SHIFT :: nat where "FUN_DRV_SHIFT = 10"
definition MCU_SEL_SHIFT :: nat where "MCU_SEL_SHIFT = 12"
definition FUN_WPU :: u32 where "FUN_WPU = push_bit 7 1"
definition FUN_WPD :: u32 where "FUN_WPD = push_bit 8 1"

definition REG_WRITE :: "u32 \<Rightarrow> u32 \<Rightarrow> machine \<Rightarrow> machine" where
  "REG_WRITE addr val s = s\<lparr>trace := trace s @ [RegWrite addr val]\<rparr>"

definition REG_READ :: "u32 \<Rightarrow> machine \<Rightarrow> u32 \<times> machine" where
  "REG_READ addr s =
     (hw_in s (nreads s), s\<lparr>trace := trace s @ [RegRead addr], nreads := Suc (nreads s)\<rparr>)"

definition REG_SET_BIT :: "u32 \<Rightarrow> u32 \<Rightarrow> machine \<Rightarrow> machine" where
  "REG_SET_BIT addr b s = (case REG_READ addr s of (v, s1) \<Rightarrow> REG_WRITE addr (v OR b) s1)"

definition busy_wait :: "nat \<Rightarrow> machine \<Rightarrow> machine" where
  "busy_wait n s = s\<lparr>trace := trace s @ [BusyWait n]\<rparr>"

text \<open>
  \<open>1 << gpio\<close> for an \<open>int\<close> pin number. C defines the shift for \<open>0 \<le> gpio < 31\<close>
  only; every pin the drivers accept lies in \<open>0..21\<close>.
\<close>

definition pin_bit :: "int \<Rightarrow> u32" where
  "pin_bit gpio = push_bit (nat gpio) 1"

subsection \<open>Bit-banged bus master (i2c.c)\<close>

record i2c_config =
  scl_pin :: int
  sda_pin :: int
  freq_hz :: u32

definition i2c_delay :: "machine \<Rightarrow> machine" where
  "i2c_delay s = busy_wait (unat (i2c_delay_cycles s)) s"

definition gpio_set_opendrain :: "int \<Rightarrow> machine \<Rightarrow> machine" where
  "gpio_set_opendrain gpio_num s =
     (if gpio_num < 0 \<or> gpio_num > 21 then s
      else
        let mux_reg = GPIO_PIN_MUX_REG gpio_num;
            (mux_val, s) = REG_READ mux_reg s;
            mux_val = mux_val AND NOT (push_bit MCU_SEL_SHIFT 0x7);
            mux_val = mux_val OR push_bit MCU_SEL_SHIFT 1;
            mux_val = mux_val OR (FUN_IE OR FUN_WPU);
            mux_val = mux_val AND NOT FUN_WPD;
            mux_val = mux_val AND NOT (push_bit FUN_DRV_SHIFT 0x3);
            mux_val = mux_val OR push_bit FUN_DRV_SHIFT 2;
            s = REG_WRITE mux_reg mux_val s
        in REG_SET_BIT GPIO_ENABLE_REG (pin_bit gpio_num) s)"

definition scl_high :: "machine \<Rightarrow> machine" where
  "scl_high s = i2c_delay (REG_WRITE GPIO_OUT_W1TS_REG (pin_bit (scl_gpio s)) s)"

definition scl_low :: "machine \<Rightarrow> machine" where
  "scl_low s = i2c_delay (REG_WRITE GPIO_OUT_W1TC_REG (pin_bit (scl_gpio s)) s)"

definition sda_high :: "machine \<Rightarrow> machine" where
  "sda_high s = i2c_delay (REG_WRITE GPIO_OUT_W1TS_REG (pin_bit (sda_gpio s)) s)"

definition sda_low :: "machine \<Rightarrow> machine" where
  "sda_low s = i2c_delay (REG_WRITE GPIO_OUT_W1TC_REG (pin_bit (sda_gpio s)) s)"

definition sda_read :: "machine \<Rightarrow> bool \<times> machine" where
  "sda_read s = (case REG_READ GPIO_IN_REG s of (v, s1) \<Rightarrow> (v AND pin_bit (sda_gpio s) \<noteq> 0, s1))"

text \<open>
  \<open>160000000 / config->freq_hz\<close> is an unsigned 32-bit division; for \<open>freq_hz = 0\<close>
  C leaves it undefined, which the model reports as \<open>None\<close>.
\<close>

definition i2c_init :: "i2c_config \<Rightarrow> machine \<Rightarrow> machine option" where
  "i2c_init config s =
     (if freq_hz config = 0 then None
      else
        let s = s\<lparr>scl_gpio := scl_pin config\<rparr>;
            s = s\<lparr>sda_gpio := sda_pin config\<rparr>;
            s = s\<lparr>i2c_delay_cycles := (160000000 div freq_hz config) div 4\<rparr>;
            s = gpio_set_opendrain (scl_gpio s) s;
            s = gpio_set_opendrain (sda_gpio s) s;
            s = sda_high s;
            s = scl_high s
        in Some s)"

definition i2c_start :: "machine \<Rightarrow> bool \<times> machine" where
  "i2c_start s = (True, scl_low (sda_low (scl_high (sda_high s))))"

definition i2c_stop :: "machine \<Rightarrow> machine" where
  "i2c_stop s = sda_high (scl_high (sda_low s))"

text \<open>
  The bit loop \<open>for (int i = 7; i >= 0; i--)\<close>: \<open>write_bits (Suc i)\<close> handles bit \<open>i\<close>
  and then the bits below it. \<open>data & (1 << i)\<close> is non-zero exactly when bit \<open>i\<close>
  of \<open>data\<close> is set.
\<close>

fun write_bits :: "nat \<Rightarrow> u8 \<Rightarrow> machine \<Rightarrow> machine" where
  "write_bits 0 data s = s"
| "write_bits (Suc i) data s =
     write_bits i data (scl_low (scl_high (if bit data i then sda_high s else sda_low s)))"

definition i2c_write_byte :: "u8 \<Rightarrow> machine \<Rightarrow> bool \<times> machine" where
  "i2c_write_byte data s =
     (let s = write_bits 8 data s;
          s = sda_high s;
          s = scl_high s;
          (level, s) = sda_read s;
          ack = \<not> level;
          s = scl_low s
      in (ack, s))"

text \<open>
  The payload loop shared by \<open>i2c_write\<close>, \<open>i2c_write_reg\<close> and
  \<open>ssd1306_send_data\<close>. A (pointer, length) pair is a list. The result is \<open>False\<close>
  when the loop body took its early \<open>return false\<close> (after calling \<open>i2c_stop\<close>), and
  \<open>True\<close> when the loop ran to its end.
\<close>

fun write_data_bytes :: "u8 list \<Rightarrow> machine \<Rightarrow> bool \<times> machine" where
  "write_data_bytes [] s = (True, s)"
| "write_data_bytes (b # bs) s =
     (case i2c_write_byte b s of (ack, s1) \<Rightarrow>
        if \<not> ack then (False, i2c_stop s1) else write_data_bytes bs s1)"

text \<open>\<open>addr << 1\<close> is passed as a \<open>uint8_t\<close> argument, so bit 7 of \<open>addr\<close> is lost.\<close>

definition i2c_write :: "u8 \<Rightarrow> u8 list \<Rightarrow> machine \<Rightarrow> bool \<times> machine" where
  "i2c_write addr data s =
     (case i2c_start s of (started, s1) \<Rightarrow>
        if \<not> started then (False, s1)
        else case i2c_write_byte (push_bit 1 addr) s1 of (ack, s2) \<Rightarrow>
          if \<not> ack then (False, i2c_stop s2)
          else case write_data_bytes data s2 of (done, s3) \<Rightarrow>
            if \<not> done then (False, s3) else (True, i2c_stop s3))"

definition i2c_write_reg :: "u8 \<Rightarrow> u8 \<Rightarrow> u8 list \<Rightarrow> machine \<Rightarrow> bool \<times> machine" where
  "i2c_write_reg addr reg data s =
     (case i2c_start s of (started, s1) \<Rightarrow>
        if \<not> started then (False, s1)
        else case i2c_write_byte (push_bit 1 addr) s1 of (ack, s2) \<Rightarrow>
          if \<not> ack then (False, i2c_stop s2)
          else case i2c_write_byte reg s2 of (ack, s3) \<Rightarrow>
            if \<not> ack then (False, i2c_stop s3)
            else case write_data_bytes data s3 of (done, s4) \<Rightarrow>
              if \<not> done then (False, s4) else (True, i2c_stop s4))"

subsection \<open>Display driver (ssd1306.c)\<close>

definition SSD1306_WIDTH :: int where "SSD1306_WIDTH = 128"
definition SSD1306_HEIGHT :: int where "SSD1306_HEIGHT = 64"

definition SSD1306_CMD_SET_CONTRAST :: u8 where "SSD1306_CMD_SET_CONTRAST = 0x81"
definition SSD1306_CMD_DISPLAY_ALL_ON_RESUME :: u8 where "SSD1306_CMD_DISPLAY_ALL_ON_RESUME = 0xA4"
definition SSD1306_CMD_NORMAL_DISPLAY :: u8 where "SSD1306_CMD_NORMAL_DISPLAY = 0xA6"
definition SSD1306_CMD_DISPLAY_OFF :: u8 where "SSD1306_CMD_DISPLAY_OFF = 0xAE"
definition SSD1306_CMD_DISPLAY_ON :: u8 where "SSD1306_CMD_DISPLAY_ON = 0xAF"
definition SSD1306_CMD_SET_DISPLAY_OFFSET :: u8 where "SSD1306_CMD_SET_DISPLAY_OFFSET = 0xD3"
definition SSD1306_CMD_SET_START_LINE :: u8 where "SSD1306_CMD_SET_START_LINE = 0x40"
definition SSD1306_CMD_MEMORY_MODE :: u8 where "SSD1306_CMD_MEMORY_MODE = 0x20"
definition SSD1306_CMD_COLUMN_ADDR :: u8 where "SSD1306_CMD_COLUMN_ADDR = 0x21"
definition SSD1306_CMD_PAGE_ADDR :: u8 where "SSD1306_CMD_PAGE_ADDR = 0x22"
definition SSD1306_CMD_SET_COM_PINS :: u8 where "SSD1306_CMD_SET_COM_PINS = 0xDA"
definition SSD1306_CMD_SET_DISPLAY_CLK_DIV :: u8 where "SSD1306_CMD_SET_DISPLAY_CLK_DIV = 0xD5"
definition SSD1306_CMD_SET_PRECHARGE :: u8 where "SSD1306_CMD_SET_PRECHARGE = 0xD9"
definition SSD1306_CMD_SET_VCOM_DETECT :: u8 where "SSD1306_CMD_SET_VCOM_DETECT = 0xDB"
definition SSD1306_CMD_SET_MULTIPLEX :: u8 where "SSD1306_CMD_SET_MULTIPLEX = 0xA8"
definition SSD1306_CMD_SEG_REMAP :: u8 where "SSD1306_CMD_SEG_REMAP = 0xA0"
definition SSD1306_CMD_COM_SCAN_DEC :: u8 where "SSD1306_CMD_COM_SCAN_DEC = 0xC8"
definition SSD1306_CMD_CHARGE_PUMP :: u8 where "SSD1306_CMD_CHARGE_PUMP = 0x8D"
definition SSD1306_CONTROL_CMD_SINGLE :: u8 where "SSD1306_CONTROL_CMD_SINGLE = 0x80"
definition SSD1306_CONTROL_DATA_STREAM :: u8 where "SSD1306_CONTROL_DATA_STREAM = 0x40"

text \<open>\<open>sizeof(ssd1306_buffer)\<close>\<close>

definition BUFFER_SIZE :: nat where
  "BUFFER_SIZE = nat (SSD1306_WIDTH * SSD1306_HEIGHT div 8)"

text \<open>
  \<open>ssd1306_config_t\<close>. Its pin fields are called \<open>scl_pin\<close> and \<open>sda_pin\<close> in
  the source; they carry a prefix here to keep them apart from those of \<open>i2c_config\<close>.
\<close>

record ssd1306_config =
  i2c_addr :: u8
  oled_scl_pin :: int
  oled_sda_pin :: int

definition ssd1306_send_command :: "u8 \<Rightarrow> machine \<Rightarrow> bool \<times> machine" where
  "ssd1306_send_command cmd s = i2c_write (ssd1306_i2c_addr s) [SSD1306_CONTROL_CMD_SINGLE, cmd] s"

definition ssd1306_send_data :: "u8 list \<Rightarrow> machine \<Rightarrow> bool \<times> machine" where
  "ssd1306_send_data data s =
     (case i2c_start s of (started, s1) \<Rightarrow>
        if \<not> started then (False, s1)
        else case i2c_write_byte (push_bit 1 (ssd1306_i2c_addr s1)) s1 of (ack, s2) \<Rightarrow>
          if \<not> ack then (False, i2c_stop s2)
          else case i2c_write_byte SSD1306_CONTROL_DATA_STREAM s2 of (ack, s3) \<Rightarrow>
            if \<not> ack then (False, i2c_stop s3)
            else case write_data_bytes data s3 of (done, s4) \<Rightarrow>
              if \<not> done then (False, s4) else (True, i2c_stop s4))"

definition ssd1306_clear :: "machine \<Rightarrow> machine" where
  "ssd1306_clear s = s\<lparr>ssd1306_buffer := replicate BUFFER_SIZE 0\<rparr>"

text \<open>Every call below is a statement whose \<open>bool\<close> result the source drops.\<close>

definition ssd1306_display :: "machine \<Rightarrow> machine" where
  "ssd1306_display s =
     (let s = snd (ssd1306_send_command SSD1306_CMD_COLUMN_ADDR s);
          s = snd (ssd1306_send_command 0 s);
          s = snd (ssd1306_send_command (word_of_int (SSD1306_WIDTH - 1)) s);
          s = snd (ssd1306_send_command SSD1306_CMD_PAGE_ADDR s);
          s = snd (ssd1306_send_command 0 s);
          s = snd (ssd1306_send_command (word_of_int ((SSD1306_HEIGHT div 8) - 1)) s);
          s = snd (ssd1306_send_data (ssd1306_buffer s) s)
      in s)"

definition ssd1306_init :: "ssd1306_config \<Rightarrow> machine \<Rightarrow> (bool \<times> machine) option" where
  "ssd1306_init config s =
     (let s = s\<lparr>ssd1306_i2c_addr := i2c_addr config\<rparr>;
          i2c_cfg = \<lparr>scl_pin = oled_scl_pin config, sda_pin = oled_sda_pin config,
                     freq_hz = 400000\<rparr>
      in case i2c_init i2c_cfg s of
           None \<Rightarrow> None
         | Some s \<Rightarrow>
            (let s = busy_wait 100000 s;
                 s = snd (ssd1306_send_command SSD1306_CMD_DISPLAY_OFF s);
                 s = snd (ssd1306_send_command SSD1306_CMD_SET_DISPLAY_CLK_DIV s);
                 s = snd (ssd1306_send_command 0x80 s);
                 s = snd (ssd1306_send_command SSD1306_CMD_SET_MULTIPLEX s);
                 s = snd (ssd1306_send_command (word_of_int (SSD1306_HEIGHT - 1)) s);
                 s = snd (ssd1306_send_command SSD1306_CMD_SET_DISPLAY_OFFSET s);
                 s = snd (ssd1306_send_command 0x00 s);
                 s = snd (ssd1306_send_command (SSD1306_CMD_SET_START_LINE OR 0x00) s);
                 s = snd (ssd1306_send_command SSD1306_CMD_CHARGE_PUMP s);
                 s = snd (ssd1306_send_command 0x14 s);
                 s = snd (ssd1306_send_command SSD1306_CMD_MEMORY_MODE s);
                 s = snd (ssd1306_send_command 0x00 s);
                 s = snd (ssd1306_send_command (SSD1306_CMD_SEG_REMAP OR 0x01) s);
                 s = snd (ssd1306_send_command SSD1306_CMD_COM_SCAN_DEC s);
                 s = snd (ssd1306_send_command SSD1306_CMD_SET_COM_PINS s);
                 s = snd (ssd1306_send_command 0x12 s);
                 s = snd (ssd1306_send_command SSD1306_CMD_SET_CONTRAST s);
                 s = snd (ssd1306_send_command 0xCF s);
                 s = snd (ssd1306_send_command SSD1306_CMD_SET_PRECHARGE s);
                 s = snd (ssd1306_send_command 0xF1 s);
                 s = snd (ssd1306_send_command SSD1306_CMD_SET_VCOM_DETECT s);
                 s = snd (ssd1306_send_command 0x40 s);
                 s = snd (ssd1306_send_command SSD1306_CMD_DISPLAY_ALL_ON_RESUME s);
                 s = snd (ssd1306_send_command SSD1306_CMD_NORMAL_DISPLAY s);
                 s = snd (ssd1306_send_command SSD1306_CMD_DISPLAY_ON s);
                 s = ssd1306_clear s;
                 s = ssd1306_display s
             in Some (True, s)))"

text \<open>
  C's \<open>/\<close> on \<open>int\<close> truncates towards zero. \<open>x\<close> and \<open>y\<close> are C \<open>int\<close>s; the
  model uses unbounded integers for them, so signed overflow of a coordinate (undefined
  in C) is outside the model.
\<close>

definition c_div :: "int \<Rightarrow> int \<Rightarrow> int" where
  "c_div a b = sgn a * sgn b * (\<bar>a\<bar> div \<bar>b\<bar>)"

text \<open>
  \<open>buffer[i] |= (1 << k)\<close> and \<open>buffer[i] &= ~(1 << k)\<close> compute in \<open>int\<close> and store
  the low eight bits, which is the bitwise operation on the byte.
\<close>

definition ssd1306_set_pixel :: "int \<Rightarrow> int \<Rightarrow> u8 \<Rightarrow> machine \<Rightarrow> machine" where
  "ssd1306_set_pixel x y color s =
     (if x < 0 \<or> x \<ge> SSD1306_WIDTH \<or> y < 0 \<or> y \<ge> SSD1306_HEIGHT then s
      else
        let i = nat (x + c_div y 8 * SSD1306_WIDTH);
            k = nat (y AND 7);
            buf = ssd1306_buffer s
        in if color \<noteq> 0
           then s\<lparr>ssd1306_buffer := buf[i := (buf ! i) OR push_bit k 1]\<rparr>
           else s\<lparr>ssd1306_buffer := buf[i := (buf ! i) AND NOT (push_bit k 1)]\<rparr>)"

text \<open>
  The glyph table \<open>font5x7\<close> lives in \<open>font5x7.h\<close>, which is not part of the
  sources at hand: it is a parameter, \<open>font g i\<close> being column \<open>i\<close> of glyph \<open>g\<close>.
  A \<open>char\<close> is a byte; the range test \<open>c < 32 || c > 126\<close> selects the same
  bytes whether \<open>char\<close> is signed or unsigned. The inner loop of \<open>ssd1306_draw_char\<close>
  is \<open>draw_glyph_line\<close>.
\<close>

type_synonym font = "nat \<Rightarrow> nat \<Rightarrow> u8"

definition draw_glyph_line :: "int \<Rightarrow> int \<Rightarrow> u8 \<Rightarrow> machine \<Rightarrow> machine" where
  "draw_glyph_line x y line s =
     foldl (\<lambda>s j. if bit line j then ssd1306_set_pixel x (y + int j) 1 s else s) s [0..<7]"

definition ssd1306_draw_char :: "font \<Rightarrow> int \<Rightarrow> int \<Rightarrow> u8 \<Rightarrow> machine \<Rightarrow> machine" where
  "ssd1306_draw_char font5x7 x y c s =
     (let c = (if unat c < 32 \<or> unat c > 126 then 32 else c);
          glyph = font5x7 (unat c - 32)
      in foldl (\<lambda>s i. draw_glyph_line (x + int i) y (glyph i) s) s [0..<5])"

text \<open>
  A C string is the list of its bytes; the loop \<open>while (*str)\<close> ends at the first
  zero byte or at the end of the list. \<open>cursor_x\<close> is a parameter of the loop body.
\<close>

fun draw_string_loop :: "font \<Rightarrow> int \<Rightarrow> int \<Rightarrow> int \<Rightarrow> u8 list \<Rightarrow> machine \<Rightarrow> machine" where
  "draw_string_loop font5x7 x cursor_x y [] s = s"
| "draw_string_loop font5x7 x cursor_x y (c # str) s =
     (if c = 0 then s
      else if c = 10 then draw_string_loop font5x7 x x (y + 8) str s
      else
        let s = ssd1306_draw_char font5x7 cursor_x y c s;
            cursor_x = cursor_x + 6
        in if cursor_x \<ge> SSD1306_WIDTH
           then draw_string_loop font5x7 x x (y + 8) str s
           else draw_string_loop font5x7 x cursor_x y str s)"

definition ssd1306_draw_string :: "font \<Rightarrow> int \<Rightarrow> int \<Rightarrow> u8 list \<Rightarrow> machine \<Rightarrow> machine" where
  "ssd1306_draw_string font5x7 x y str s = draw_string_loop font5x7 x x y str s"

section \<open>Observing the bus\<close>

subsection \<open>Waveforms\<close>

text \<open>
  The register accesses and waits that make up one line operation, one start or stop
  condition and one byte slot, as functions of the wiring (the two pin numbers and
  the delay count). They are the vocabulary in which the effect of the bus master
  is stated; the lemmas below prove that the code produces exactly them.
\<close>

record wiring =
  w_scl :: int
  w_sda :: int
  w_delay :: u32

definition wiring_of :: "machine \<Rightarrow> wiring" where
  "wiring_of s = \<lparr>w_scl = scl_gpio s, w_sda = sda_gpio s, w_delay = i2c_delay_cycles s\<rparr>"

definition release_line :: "wiring \<Rightarrow> int \<Rightarrow> hw_event list" where
  "release_line w gpio = [RegWrite GPIO_OUT_W1TS_REG (pin_bit gpio), BusyWait (unat (w_delay w))]"

definition pull_line :: "wiring \<Rightarrow> int \<Rightarrow> hw_event list" where
  "pull_line w gpio = [RegWrite GPIO_OUT_W1TC_REG (pin_bit gpio), BusyWait (unat (w_delay w))]"

definition clock_pulse :: "wiring \<Rightarrow> hw_event list" where
  "clock_pulse w = release_line w (w_scl w) @ pull_line w (w_scl w)"

definition start_wave :: "wiring \<Rightarrow> hw_event list" where
  "start_wave w =
     release_line w (w_sda w) @ release_line w (w_scl w) @ pull_line w (w_sda w) @ pull_line w (w_scl w)"

definition stop_wave :: "wiring \<Rightarrow> hw_event list" where
  "stop_wave w = pull_line w (w_sda w) @ release_line w (w_scl w) @ release_line w (w_sda w)"

definition bit_wave :: "wiring \<Rightarrow> bool \<Rightarrow> hw_event list" where
  "bit_wave w b = (if b then release_line w (w_sda w) else pull_line w (w_sda w)) @ clock_pulse w"

definition msb_first :: "u8 \<Rightarrow> bool list" where
  "msb_first b = [bit b 7, bit b 6, bit b 5, bit b 4, bit b 3, bit b 2, bit b 1, bit b 0]"

definition ack_wave :: "wiring \<Rightarrow> hw_event list" where
  "ack_wave w =
     release_line w (w_sda w) @ release_line w (w_scl w) @ [RegRead GPIO_IN_REG] @ pull_line w (w_scl w)"

definition byte_wave :: "wiring \<Rightarrow> u8 \<Rightarrow> hw_event list" where
  "byte_wave w b = concat (map (bit_wave w) (msb_first b)) @ ack_wave w"

definition txn_wave :: "wiring \<Rightarrow> u8 list \<Rightarrow> hw_event list" where
  "txn_wave w bytes = start_wave w @ concat (map (byte_wave w) bytes) @ stop_wave w"

definition emit :: "hw_event list \<Rightarrow> machine \<Rightarrow> machine" where
  "emit evs s = s\<lparr>trace := trace s @ evs\<rparr>"

definition tick :: "nat \<Rightarrow> machine \<Rightarrow> machine" where
  "tick n s = s\<lparr>nreads := nreads s + n\<rparr>"

text \<open>
  The events a call appended to the trace.
\<close>

definition emitted :: "machine \<Rightarrow> machine \<Rightarrow> hw_event list" where
  "emitted s s' = drop (length (trace s)) (trace s')"

subsection \<open>Acknowledge responses\<close>

text \<open>
  \<open>ack_at s k\<close>: the \<open>k\<close>-th register read sees the data line low. When read \<open>k\<close>
  is the acknowledge sample of a byte, the device acknowledged that byte.
  \<open>clocked ack k bytes\<close> are the bytes that reach the wire when \<open>bytes\<close> are written
  one after the other and the first of them is sampled by read \<open>k\<close>: all bytes up to
  and including the first one that is not acknowledged.
\<close>

definition ack_at :: "machine \<Rightarrow> nat \<Rightarrow> bool" where
  "ack_at s k = (hw_in s k AND pin_bit (sda_gpio s) = 0)"

fun clocked :: "(nat \<Rightarrow> bool) \<Rightarrow> nat \<Rightarrow> u8 list \<Rightarrow> u8 list" where
  "clocked ack k [] = []"
| "clocked ack k (b # bs) = b # (if ack k then clocked ack (Suc k) bs else [])"

fun all_acked :: "(nat \<Rightarrow> bool) \<Rightarrow> nat \<Rightarrow> nat \<Rightarrow> bool" where
  "all_acked ack k 0 = True"
| "all_acked ack k (Suc n) = (ack k \<and> all_acked ack (Suc k) n)"

definition always_acked :: "machine \<Rightarrow> bool" where
  "always_acked s = (\<forall>k\<ge>nreads s. ack_at s k)"

subsection \<open>A protocol analyser on the two lines\<close>

text \<open>
  What a logic analyser attached to the two pins decodes from the register writes. The
  output latch of a pin goes high on a write-one-to-set of its bit and low on a
  write-one-to-clear. With the clock high, a falling data line is a start condition and
  a rising one a stop condition; a data bit is the level of the data line at a rising
  clock edge, provided the data line then stays put until the clock falls again.
  The analyser sees what the master drives: in the acknowledge slot it sees the
  released line.
\<close>

datatype bus_sym = Start | Stop | Bit bool

type_synonym probe = "bool \<times> bool \<times> bool option"

definition idle :: probe where
  "idle = (True, True, None)"

definition latch :: "int \<Rightarrow> hw_event \<Rightarrow> bool \<Rightarrow> bool" where
  "latch gpio e level =
     (case e of
        RegWrite a v \<Rightarrow>
          if a = GPIO_OUT_W1TS_REG then level \<or> bit v (nat gpio)
          else if a = GPIO_OUT_W1TC_REG then level \<and> \<not> bit v (nat gpio)
          else level
      | RegRead a \<Rightarrow> level
      | BusyWait n \<Rightarrow> level)"

fun probe_step :: "wiring \<Rightarrow> probe \<Rightarrow> hw_event \<Rightarrow> probe \<times> bus_sym list" where
  "probe_step w (scl, sda, latched) e =
     (let scl' = latch (w_scl w) e scl; sda' = latch (w_sda w) e sda
      in if scl \<and> scl' \<and> sda \<noteq> sda' then ((scl', sda', None), [if sda' then Stop else Start])
         else if \<not> scl \<and> scl' then ((scl', sda', Some sda'), [])
         else if scl \<and> \<not> scl' then
           ((scl', sda', None), case latched of Some b \<Rightarrow> [Bit b] | None \<Rightarrow> [])
         else ((scl', sda', latched), []))"

fun analyse :: "wiring \<Rightarrow> probe \<Rightarrow> hw_event list \<Rightarrow> probe \<times> bus_sym list" where
  "analyse w p [] = (p, [])"
| "analyse w p (e # es) =
     (case probe_step w p e of (p1, out1) \<Rightarrow>
        case analyse w p1 es of (p2, out2) \<Rightarrow> (p2, out1 @ out2))"

text \<open>
  Grouping the symbols into transactions (the bits between a start and the next stop)
  and the bits of a transaction into bytes: nine clocks per byte, eight data bits with
  the most significant first and then the acknowledge slot.
\<close>

fun frames :: "bool list option \<Rightarrow> bus_sym list \<Rightarrow> bool list list" where
  "frames cur [] = []"
| "frames cur (Start # xs) = frames (Some []) xs"
| "frames None (Bit b # xs) = frames None xs"
| "frames (Some bs) (Bit b # xs) = frames (Some (bs @ [b])) xs"
| "frames None (Stop # xs) = frames None xs"
| "frames (Some bs) (Stop # xs) = bs # frames None xs"

definition byte_of_bits :: "bool list \<Rightarrow> u8" where
  "byte_of_bits bs = horner_sum of_bool 2 (rev bs)"

fun octets :: "bool list \<Rightarrow> u8 list" where
  "octets (b7 # b6 # b5 # b4 # b3 # b2 # b1 # b0 # a # rest) =
     byte_of_bits [b7, b6, b5, b4, b3, b2, b1, b0] # octets rest"
| "octets bs = []"

definition byte_syms :: "u8 \<Rightarrow> bus_sym list" where
  "byte_syms b = map Bit (msb_first b) @ [Bit True]"

definition txn_syms :: "u8 list \<Rightarrow> bus_sym list" where
  "txn_syms bytes = Start # concat (map byte_syms bytes) @ [Stop]"

definition bus_transactions :: "wiring \<Rightarrow> hw_event list \<Rightarrow> u8 list list" where
  "bus_transactions w evs = map octets (frames None (snd (analyse w idle evs)))"

definition bus_idle_after :: "wiring \<Rightarrow> hw_event list \<Rightarrow> bool" where
  "bus_idle_after w evs = (fst (analyse w idle evs) = idle)"

definition valid_wiring :: "wiring \<Rightarrow> bool" where
  "valid_wiring w =
     (0 \<le> w_scl w \<and> w_scl w \<le> 21 \<and> 0 \<le> w_sda w \<and> w_sda w \<le> 21 \<and> w_scl w \<noteq> w_sda w)"

subsection \<open>Concrete configurations\<close>

text \<open>
  The configuration \<open>app_main\<close> passes to \<open>ssd1306_init\<close> (main.c), a machine wired
  as that board is after bus initialisation, and a machine before initialisation.
  The environment \<open>acks_all\<close> shows every input low on every read (a device that
  acknowledges every byte); \<open>acks_none\<close> shows every input high (no device: the pull-up
  holds the data line). \<open>acks_after_setup\<close> shows every input high during the first
  four reads, which at power-on are the pin set-up reads of \<open>i2c_init\<close>, and low on
  every later read.
\<close>

definition oled_config :: ssd1306_config where
  "oled_config = \<lparr>i2c_addr = 0x3C, oled_scl_pin = 7, oled_sda_pin = 6\<rparr>"

definition acks_all :: "nat \<Rightarrow> u32" where
  "acks_all k = 0"

definition acks_none :: "nat \<Rightarrow> u32" where
  "acks_none k = 0xFFFFFFFF"

definition acks_after_setup :: "nat \<Rightarrow> u32" where
  "acks_after_setup k = (if k < 4 then 0xFFFFFFFF else 0)"

definition board :: "(nat \<Rightarrow> u32) \<Rightarrow> machine" where
  "board env =
     \<lparr>i2c_delay_cycles = 100, scl_gpio = 7, sda_gpio = 6,
      ssd1306_buffer = replicate 1024 0, ssd1306_i2c_addr = 0x3C,
      trace = [], hw_in = env, nreads = 0\<rparr>"

definition power_on :: "(nat \<Rightarrow> u32) \<Rightarrow> machine" where
  "power_on env =
     \<lparr>i2c_delay_cycles = 0, scl_gpio = 0, sda_gpio = 0,
      ssd1306_buffer = replicate 1024 0, ssd1306_i2c_addr = 0,
      trace = [], hw_in = env, nreads = 0\<rparr>"

subsection \<open>The cursor rule of the specification\<close>

text \<open>
  The positions at which the specification says \<open>draw_string\<close> draws: the cursor
  starts at \<open>x\<close> and advances 6 pixels per character; a line break, or a cursor that
  has reached the display width of 128 after advancing, resets the cursor to \<open>x\<close> and
  advances the row by 8. The result lists column, row and character of every glyph
  drawn, in order. \<open>solid_font\<close> is a glyph table in which every glyph has all of its
  5 by 7 pixels lit.
\<close>

fun spec_cursor_path :: "int \<Rightarrow> int \<Rightarrow> int \<Rightarrow> u8 list \<Rightarrow> (int \<times> int \<times> u8) list" where
  "spec_cursor_path x cursor y [] = []"
| "spec_cursor_path x cursor y (c # cs) =
     (if c = 0 then []
      else if c = 10 then spec_cursor_path x x (y + 8) cs
      else (cursor, y, c) #
        (if cursor + 6 \<ge> 128 then spec_cursor_path x x (y + 8) cs
         else spec_cursor_path x (cursor + 6) y cs))"

definition solid_font :: font where
  "solid_font g i = 0x7F"

subsection \<open>Display traffic\<close>

text \<open>
  \<open>commands_of\<close> picks the command bytes out of decoded transactions: a command
  transaction is an address byte, the control byte \<open>0x80\<close> and one command byte.
  \<open>init_bus_traffic\<close> is what \<open>ssd1306_init\<close> emits after \<open>i2c_init\<close> and the settle
  delay, and \<open>init_wiring\<close> is the wiring in force while it does.
\<close>

definition commands_of :: "u8 list list \<Rightarrow> u8 list" where
  "commands_of txns = map (\<lambda>t. t ! 2) (filter (\<lambda>t. length t = 3 \<and> t ! 1 = 0x80) txns)"

definition init_wiring :: "ssd1306_config \<Rightarrow> wiring" where
  "init_wiring config = \<lparr>w_scl = oled_scl_pin config, w_sda = oled_sda_pin config, w_delay = 100\<rparr>"

definition init_bus_traffic :: "ssd1306_config \<Rightarrow> machine \<Rightarrow> hw_event list" where
  "init_bus_traffic config s =
     (case i2c_init \<lparr>scl_pin = oled_scl_pin config, sda_pin = oled_sda_pin config,
                       freq_hz = 400000\<rparr> (s\<lparr>ssd1306_i2c_addr := i2c_addr config\<rparr>) of
        None \<Rightarrow> []
      | Some s1 \<Rightarrow>
          (case ssd1306_init config s of
             None \<Rightarrow> []
           | Some (ok, s') \<Rightarrow> emitted (busy_wait 100000 s1) s'))"

subsection \<open>The caller (main.c)\<close>

text \<open>
  \<open>app_main\<close> branches on the result of \<open>ssd1306_init\<close> and prints one of two
  messages on the console; \<open>app_main_oled_report\<close> is the message chosen.
\<close>

definition app_main_oled_report :: "machine \<Rightarrow> string option" where
  "app_main_oled_report s =
     (case ssd1306_init oled_config s of
        None \<Rightarrow> None
      | Some (ok, s') \<Rightarrow>
          Some (if ok then ''OLED initialized successfully!'' @ [CHR 0x0A]
                else ''OLED initialization failed!'' @ [CHR 0x0A]))"

section \<open>The effect of the bus master\<close>

text \<open>
  Every operation of the bus master appends events to the trace and consumes register
  reads; nothing else changes. \<open>emit\<close> and \<open>tick\<close> express that.
\<close>

lemma emit_emit [simp]: "emit b (emit a s) = emit (a @ b) s"
  by (simp add: emit_def)

lemma emit_Nil [simp]: "emit [] s = s"
  by (simp add: emit_def)

lemma tick_tick [simp]: "tick m (tick n s) = tick (n + m) s"
  by (simp add: tick_def)

lemma tick_0 [simp]: "tick 0 s = s"
  by (simp add: tick_def)

lemma emit_tick [simp]: "emit a (tick n s) = tick n (emit a s)"
  by (simp add: emit_def tick_def)

lemma fields_emit [simp]:
  "trace (emit a s) = trace s @ a" "nreads (emit a s) = nreads s" "hw_in (emit a s) = hw_in s"
  "scl_gpio (emit a s) = scl_gpio s" "sda_gpio (emit a s) = sda_gpio s"
  "i2c_delay_cycles (emit a s) = i2c_delay_cycles s"
  "ssd1306_buffer (emit a s) = ssd1306_buffer s" "ssd1306_i2c_addr (emit a s) = ssd1306_i2c_addr s"
  by (simp_all add: emit_def)

lemma fields_tick [simp]:
  "trace (tick n s) = trace s" "nreads (tick n s) = nreads s + n" "hw_in (tick n s) = hw_in s"
  "scl_gpio (tick n s) = scl_gpio s" "sda_gpio (tick n s) = sda_gpio s"
  "i2c_delay_cycles (tick n s) = i2c_delay_cycles s"
  "ssd1306_buffer (tick n s) = ssd1306_buffer s" "ssd1306_i2c_addr (tick n s) = ssd1306_i2c_addr s"
  by (simp_all add: tick_def)

lemma wiring_of_emit [simp]: "wiring_of (emit a s) = wiring_of s"
  by (simp add: wiring_of_def)

lemma wiring_of_tick [simp]: "wiring_of (tick n s) = wiring_of s"
  by (simp add: wiring_of_def)

lemma wiring_of_fields [simp]:
  "w_scl (wiring_of s) = scl_gpio s" "w_sda (wiring_of s) = sda_gpio s"
  "w_delay (wiring_of s) = i2c_delay_cycles s"
  by (simp_all add: wiring_of_def)

lemma ack_at_emit [simp]: "ack_at (emit a s) = ack_at s"
  by (simp add: ack_at_def fun_eq_iff)

lemma ack_at_tick [simp]: "ack_at (tick n s) = ack_at s"
  by (simp add: ack_at_def fun_eq_iff)

lemma scl_high_emit: "scl_high s = emit (release_line (wiring_of s) (scl_gpio s)) s"
  by (simp add: scl_high_def i2c_delay_def busy_wait_def REG_WRITE_def emit_def release_line_def)

lemma scl_low_emit: "scl_low s = emit (pull_line (wiring_of s) (scl_gpio s)) s"
  by (simp add: scl_low_def i2c_delay_def busy_wait_def REG_WRITE_def emit_def pull_line_def)

lemma sda_high_emit: "sda_high s = emit (release_line (wiring_of s) (sda_gpio s)) s"
  by (simp add: sda_high_def i2c_delay_def busy_wait_def REG_WRITE_def emit_def release_line_def)

lemma sda_low_emit: "sda_low s = emit (pull_line (wiring_of s) (sda_gpio s)) s"
  by (simp add: sda_low_def i2c_delay_def busy_wait_def REG_WRITE_def emit_def pull_line_def)

lemma REG_READ_effect: "REG_READ a s = (hw_in s (nreads s), tick 1 (emit [RegRead a] s))"
  by (simp add: REG_READ_def tick_def emit_def)

lemma sda_read_tick: "sda_read s = (\<not> ack_at s (nreads s), tick 1 (emit [RegRead GPIO_IN_REG] s))"
  by (simp add: sda_read_def REG_READ_effect ack_at_def)

lemmas line_ops = scl_high_emit scl_low_emit sda_high_emit sda_low_emit

lemma i2c_start_emit: "i2c_start s = (True, emit (start_wave (wiring_of s)) s)"
  by (simp add: i2c_start_def line_ops start_wave_def)

lemma i2c_stop_emit: "i2c_stop s = emit (stop_wave (wiring_of s)) s"
  by (simp add: i2c_stop_def line_ops stop_wave_def)

lemma bit_slot_emit:
  "scl_low (scl_high (if c then sda_high s else sda_low s)) = emit (bit_wave (wiring_of s) c) s"
  by (cases c) (simp_all add: line_ops bit_wave_def clock_pulse_def)

lemma write_bits_emit:
  "write_bits n b s = emit (concat (map (\<lambda>i. bit_wave (wiring_of s) (bit b i)) (rev [0..<n]))) s"
proof (induction n arbitrary: s)
  case 0
  show ?case by simp
next
  case (Suc n)
  show ?case
    by (simp add: Suc.IH bit_slot_emit)
qed

lemma rev_upt_8: "rev [0..<8] = [7, 6, 5, 4, 3, 2, 1, 0::nat]"
  by (simp add: upt_rec)

lemma write_bits_8: "write_bits 8 b s = emit (concat (map (bit_wave (wiring_of s)) (msb_first b))) s"
  by (simp only: write_bits_emit rev_upt_8) (simp add: msb_first_def)

lemma i2c_write_byte_effect:
  "i2c_write_byte b s = (ack_at s (nreads s), tick 1 (emit (byte_wave (wiring_of s) b) s))"
  by (simp add: i2c_write_byte_def write_bits_8 line_ops sda_read_tick byte_wave_def ack_wave_def)

lemma write_data_bytes_effect:
  "write_data_bytes bs s =
     (all_acked (ack_at s) (nreads s) (length bs),
      tick (length (clocked (ack_at s) (nreads s) bs))
        (emit (concat (map (byte_wave (wiring_of s)) (clocked (ack_at s) (nreads s) bs)) @
               (if all_acked (ack_at s) (nreads s) (length bs) then [] else stop_wave (wiring_of s))) s))"
proof (induction bs arbitrary: s)
  case Nil
  show ?case by simp
next
  case (Cons b bs)
  show ?case
    by (simp add: i2c_write_byte_effect i2c_stop_emit Cons.IH)
qed

lemma i2c_write_effect:
  "i2c_write addr data s =
     (all_acked (ack_at s) (nreads s) (Suc (length data)),
      tick (length (clocked (ack_at s) (nreads s) (push_bit 1 addr # data)))
        (emit (txn_wave (wiring_of s) (clocked (ack_at s) (nreads s) (push_bit 1 addr # data))) s))"
  by (simp add: i2c_write_def i2c_start_emit i2c_write_byte_effect i2c_stop_emit
      write_data_bytes_effect txn_wave_def)

lemma i2c_write_reg_effect:
  "i2c_write_reg addr reg data s =
     (all_acked (ack_at s) (nreads s) (Suc (Suc (length data))),
      tick (length (clocked (ack_at s) (nreads s) (push_bit 1 addr # reg # data)))
        (emit (txn_wave (wiring_of s) (clocked (ack_at s) (nreads s) (push_bit 1 addr # reg # data))) s))"
  by (simp add: i2c_write_reg_def i2c_start_emit i2c_write_byte_effect i2c_stop_emit
      write_data_bytes_effect txn_wave_def)

lemma ssd1306_send_data_effect:
  "ssd1306_send_data data s = i2c_write_reg (ssd1306_i2c_addr s) SSD1306_CONTROL_DATA_STREAM data s"
  by (simp add: ssd1306_send_data_def i2c_write_reg_def i2c_start_emit)

section \<open>What the analyser decodes\<close>

lemma analyse_append:
  "analyse w p (a @ b) =
     (case analyse w p a of (p1, out1) \<Rightarrow> case analyse w p1 b of (p2, out2) \<Rightarrow> (p2, out1 @ out2))"
  by (induction a arbitrary: p) (simp_all split: prod.splits)

lemma set_clr_distinct: "GPIO_OUT_W1TS_REG \<noteq> GPIO_OUT_W1TC_REG"
  by (simp add: GPIO_OUT_W1TS_REG_def GPIO_OUT_W1TC_REG_def GPIO_BASE_def)

lemma bit_pin_bit: "0 \<le> p \<Longrightarrow> p \<le> 21 \<Longrightarrow> 0 \<le> q \<Longrightarrow> bit (pin_bit p) (nat q) \<longleftrightarrow> p = q"
  by (auto simp add: pin_bit_def bit_simps)

lemma latch_simps:
  "latch q (BusyWait n) l = l"
  "latch q (RegRead a) l = l"
  "0 \<le> p \<Longrightarrow> p \<le> 21 \<Longrightarrow> 0 \<le> q \<Longrightarrow>
     latch q (RegWrite GPIO_OUT_W1TS_REG (pin_bit p)) l = (l \<or> p = q)"
  "0 \<le> p \<Longrightarrow> p \<le> 21 \<Longrightarrow> 0 \<le> q \<Longrightarrow>
     latch q (RegWrite GPIO_OUT_W1TC_REG (pin_bit p)) l = (l \<and> p \<noteq> q)"
  using set_clr_distinct by (simp_all add: latch_def bit_pin_bit)

lemma analyse_release_sda:
  assumes "valid_wiring w"
  shows "analyse w (scl, sda, l) (release_line w (w_sda w)) =
           (if scl \<and> \<not> sda then ((scl, True, None), [Stop]) else ((scl, True, l), []))"
  using assms by (auto simp add: valid_wiring_def release_line_def latch_simps)

lemma analyse_pull_sda:
  assumes "valid_wiring w"
  shows "analyse w (scl, sda, l) (pull_line w (w_sda w)) =
           (if scl \<and> sda then ((scl, False, None), [Start]) else ((scl, False, l), []))"
  using assms by (auto simp add: valid_wiring_def pull_line_def latch_simps)

lemma analyse_release_scl:
  assumes "valid_wiring w"
  shows "analyse w (scl, sda, l) (release_line w (w_scl w)) =
           ((True, sda, if scl then l else Some sda), [])"
  using assms by (auto simp add: valid_wiring_def release_line_def latch_simps)

lemma analyse_pull_scl:
  assumes "valid_wiring w"
  shows "analyse w (scl, sda, l) (pull_line w (w_scl w)) =
           (if scl then ((False, sda, None), case l of Some b \<Rightarrow> [Bit b] | None \<Rightarrow> [])
            else ((False, sda, l), []))"
  using assms by (auto simp add: valid_wiring_def pull_line_def latch_simps)

lemmas analyse_lines = analyse_release_sda analyse_pull_sda analyse_release_scl analyse_pull_scl

lemma analyse_start:
  "valid_wiring w \<Longrightarrow> analyse w idle (start_wave w) = ((False, False, None), [Start])"
  by (simp add: idle_def start_wave_def analyse_append analyse_lines)

lemma analyse_bit:
  "valid_wiring w \<Longrightarrow> analyse w (False, sda, None) (bit_wave w b) = ((False, b, None), [Bit b])"
  by (simp add: bit_wave_def clock_pulse_def analyse_append analyse_lines)

lemma analyse_bits:
  "valid_wiring w \<Longrightarrow>
     analyse w (False, sda, None) (concat (map (bit_wave w) bs)) =
       ((False, if bs = [] then sda else last bs, None), map Bit bs)"
  by (induction bs arbitrary: sda) (simp_all add: analyse_append analyse_bit)

lemma analyse_ack:
  "valid_wiring w \<Longrightarrow> analyse w (False, sda, None) (ack_wave w) = ((False, True, None), [Bit True])"
  by (simp add: ack_wave_def analyse_append analyse_lines latch_simps)

lemma analyse_byte:
  "valid_wiring w \<Longrightarrow> analyse w (False, sda, None) (byte_wave w b) = ((False, True, None), byte_syms b)"
  by (simp add: byte_wave_def analyse_append analyse_bits analyse_ack byte_syms_def)

lemma analyse_bytes:
  "valid_wiring w \<Longrightarrow>
     analyse w (False, sda, None) (concat (map (byte_wave w) bs)) =
       ((False, if bs = [] then sda else True, None), concat (map byte_syms bs))"
  by (induction bs arbitrary: sda) (simp_all add: analyse_append analyse_byte)

lemma analyse_stop:
  "valid_wiring w \<Longrightarrow> analyse w (False, sda, None) (stop_wave w) = (idle, [Stop])"
  by (simp add: idle_def stop_wave_def analyse_append analyse_lines)

lemma analyse_txn:
  "valid_wiring w \<Longrightarrow> analyse w idle (txn_wave w bytes) = (idle, txn_syms bytes)"
  by (simp add: txn_wave_def txn_syms_def analyse_append analyse_start analyse_bytes analyse_stop)

lemma analyse_txns:
  "valid_wiring w \<Longrightarrow>
     analyse w idle (concat (map (txn_wave w) ts)) = (idle, concat (map txn_syms ts))"
  by (induction ts) (simp_all add: analyse_append analyse_txn)

lemma frames_bits:
  "frames (Some acc) (map Bit bs @ xs) = frames (Some (acc @ bs)) xs"
  by (induction bs arbitrary: acc) simp_all

lemma frames_bytes:
  "frames (Some acc) (concat (map byte_syms bs) @ xs) =
     frames (Some (acc @ concat (map (\<lambda>b. msb_first b @ [True]) bs))) xs"
  by (induction bs arbitrary: acc) (simp_all add: byte_syms_def frames_bits)

lemma frames_txn:
  "frames cur (txn_syms bs @ xs) = concat (map (\<lambda>b. msb_first b @ [True]) bs) # frames None xs"
  using frames_bytes [of "[]" bs "Stop # xs"] by (simp add: txn_syms_def)

lemma frames_txns:
  "frames cur (concat (map txn_syms ts)) = map (\<lambda>bs. concat (map (\<lambda>b. msb_first b @ [True]) bs)) ts"
  by (induction ts arbitrary: cur) (simp_all add: frames_txn)

lemma byte_of_msb_first: "byte_of_bits (msb_first b) = b"
proof -
  have "[0..<8] = [0, 1, 2, 3, 4, 5, 6, 7::nat]"
    by (simp add: upt_rec)
  then have "rev (msb_first b) = map (bit b) [0..<8]"
    by (simp add: msb_first_def)
  then have "byte_of_bits (msb_first b) = take_bit 8 b"
    by (simp add: byte_of_bits_def horner_sum_bit_eq_take_bit)
  also have "take_bit 8 b = b"
    by (rule take_bit_word_eq_self) simp
  finally show ?thesis .
qed

lemma octets_bytes: "octets (concat (map (\<lambda>b. msb_first b @ [True]) bs)) = bs"
proof (induction bs)
  case Nil
  show ?case by simp
next
  case (Cons b bs)
  have "octets ((msb_first b @ [True]) @ concat (map (\<lambda>b. msb_first b @ [True]) bs)) =
          byte_of_bits (msb_first b) # octets (concat (map (\<lambda>b. msb_first b @ [True]) bs))"
    by (simp add: msb_first_def)
  then show ?case by (simp add: Cons.IH byte_of_msb_first)
qed

lemma bus_transactions_txns:
  "valid_wiring w \<Longrightarrow> bus_transactions w (concat (map (txn_wave w) ts)) = ts"
  by (simp add: bus_transactions_def analyse_txns frames_txns octets_bytes o_def)

lemma bus_idle_after_txns:
  "valid_wiring w \<Longrightarrow> bus_idle_after w (concat (map (txn_wave w) ts))"
  by (simp add: bus_idle_after_def analyse_txns)

lemma emitted_effect [simp]: "emitted s (tick n (emit evs s)) = evs"
  by (simp add: emitted_def)

lemma valid_wiring_board: "valid_wiring (wiring_of (board env))"
  by (simp add: valid_wiring_def wiring_of_def board_def)

lemma ack_at_board_all: "ack_at (board acks_all) k"
  by (simp add: ack_at_def board_def acks_all_def)

lemma ack_at_board_none: "\<not> ack_at (board acks_none) k"
  by (simp add: ack_at_def board_def acks_none_def pin_bit_def)

lemma nreads_board [simp]: "nreads (board env) = 0"
  by (simp add: board_def)


section \<open>Byte transfer\<close>

text \<open>
  C5. For every byte \<open>b\<close>, \<open>i2c_write_byte b\<close> puts the eight bits of \<open>b\<close> on the
  data line, bit 7 first: for each bit it sets the data line (released for 1, pulled low
  for 0) and then pulses the clock high and low. It then releases the data line, raises
  the clock, reads the input register once and lowers the clock. It returns true exactly
  when that read shows the data line low. Entered with the clock low on a valid wiring,
  the data line only changes while the clock is low: an analyser decodes the nine bit
  slots and no start or stop condition.
\<close>

theorem i2c_write_byte_msb_first_then_ack:
  "i2c_write_byte b s = (ack_at s (nreads s), tick 1 (emit (byte_wave (wiring_of s) b) s)) \<and>
   byte_wave (wiring_of s) b =
     bit_wave (wiring_of s) (bit b 7) @ bit_wave (wiring_of s) (bit b 6) @
     bit_wave (wiring_of s) (bit b 5) @ bit_wave (wiring_of s) (bit b 4) @
     bit_wave (wiring_of s) (bit b 3) @ bit_wave (wiring_of s) (bit b 2) @
     bit_wave (wiring_of s) (bit b 1) @ bit_wave (wiring_of s) (bit b 0) @
     release_line (wiring_of s) (sda_gpio s) @ release_line (wiring_of s) (scl_gpio s) @
     [RegRead GPIO_IN_REG] @ pull_line (wiring_of s) (scl_gpio s) \<and>
   (valid_wiring (wiring_of s) \<longrightarrow>
      analyse (wiring_of s) (False, sda0, None) (byte_wave (wiring_of s) b) =
        ((False, True, None),
         [Bit (bit b 7), Bit (bit b 6), Bit (bit b 5), Bit (bit b 4),
          Bit (bit b 3), Bit (bit b 2), Bit (bit b 1), Bit (bit b 0), Bit True]))"
proof (intro conjI impI)
  show "i2c_write_byte b s = (ack_at s (nreads s), tick 1 (emit (byte_wave (wiring_of s) b) s))"
    by (rule i2c_write_byte_effect)
  show "byte_wave (wiring_of s) b =
     bit_wave (wiring_of s) (bit b 7) @ bit_wave (wiring_of s) (bit b 6) @
     bit_wave (wiring_of s) (bit b 5) @ bit_wave (wiring_of s) (bit b 4) @
     bit_wave (wiring_of s) (bit b 3) @ bit_wave (wiring_of s) (bit b 2) @
     bit_wave (wiring_of s) (bit b 1) @ bit_wave (wiring_of s) (bit b 0) @
     release_line (wiring_of s) (sda_gpio s) @ release_line (wiring_of s) (scl_gpio s) @
     [RegRead GPIO_IN_REG] @ pull_line (wiring_of s) (scl_gpio s)"
    by (simp add: byte_wave_def msb_first_def ack_wave_def)
next
  assume "valid_wiring (wiring_of s)"
  then show "analyse (wiring_of s) (False, sda0, None) (byte_wave (wiring_of s) b) =
        ((False, True, None),
         [Bit (bit b 7), Bit (bit b 6), Bit (bit b 5), Bit (bit b 4),
          Bit (bit b 3), Bit (bit b 2), Bit (bit b 1), Bit (bit b 0), Bit True])"
    by (simp add: analyse_byte byte_syms_def msb_first_def)
qed

theorem i2c_write_byte_msb_first_then_ack_witness:
  "valid_wiring (wiring_of (board acks_none)) \<and>
   \<not> fst (i2c_write_byte 0xA5 (board acks_none)) \<and>
   fst (i2c_write_byte 0xA5 (board acks_all)) \<and>
   snd (analyse (wiring_of (board acks_none)) (False, False, None)
          (byte_wave (wiring_of (board acks_none)) 0xA5)) =
     [Bit True, Bit False, Bit True, Bit False, Bit False, Bit True, Bit False, Bit True, Bit True]"
proof -
  note effect = i2c_write_byte_msb_first_then_ack [THEN conjunct1]
  note decoded = i2c_write_byte_msb_first_then_ack [THEN conjunct2, THEN conjunct2, rule_format]
  have wired: "valid_wiring (wiring_of (board acks_none))"
    by (rule valid_wiring_board)
  have nack: "\<not> fst (i2c_write_byte 0xA5 (board acks_none))"
    by (simp add: effect ack_at_board_none)
  have ack: "fst (i2c_write_byte 0xA5 (board acks_all))"
    by (simp add: effect ack_at_board_all)
  have "snd (analyse (wiring_of (board acks_none)) (False, False, None)
          (byte_wave (wiring_of (board acks_none)) 0xA5)) =
     [Bit True, Bit False, Bit True, Bit False, Bit False, Bit True, Bit False, Bit True, Bit True]"
    by (simp add: decoded [OF wired])
  with wired nack ack show ?thesis by blast
qed

section \<open>Transactions\<close>

lemma clocked_all_acked: "all_acked ack k (length bs) \<Longrightarrow> clocked ack k bs = bs"
  by (induction bs arbitrary: k) simp_all

lemma shifted_address_is_write: "\<not> bit (push_bit 1 addr :: u8) 0"
  by (simp add: bit_0)

lemma shifted_address_keeps_7_bits:
  fixes addr :: u8
  assumes "addr < 0x80"
  shows "drop_bit 1 (push_bit 1 addr) = addr"
proof -
  from assms have "unat addr < 128"
    by (simp add: word_less_nat_alt)
  then have "unat (push_bit 1 addr) = unat addr * 2"
    by (simp add: unat_word_ariths)
  then have "unat (drop_bit 1 (push_bit 1 addr)) = unat addr"
    by (simp add: drop_bit_eq_div unat_div_distrib)
  then show ?thesis
    by (rule word_unat_eq_iff [THEN iffD2])
qed

lemma analyse_stop_ends_idle:
  "valid_wiring w \<Longrightarrow> fst (analyse w p (stop_wave w)) = idle"
  by (cases p) (simp add: idle_def stop_wave_def analyse_append analyse_lines)

lemma fst_analyse_append:
  "fst (analyse w p (a @ b)) = fst (analyse w (fst (analyse w p a)) b)"
  by (simp add: analyse_append split: prod.splits)

lemma analyse_txn_ends_idle:
  "valid_wiring w \<Longrightarrow> fst (analyse w p (txn_wave w bs)) = idle"
  by (simp only: txn_wave_def fst_analyse_append analyse_stop_ends_idle)

text \<open>
  C3. For every device address, payload and pattern of acknowledge responses, a call of
  \<open>i2c_write\<close> or \<open>i2c_write_reg\<close> on a valid wiring, entered with the bus idle,
  puts on the bus one start condition, the bit slots of the bytes up to and including
  the first byte that is not acknowledged, and one stop condition. The call returns
  true exactly when every byte was acknowledged, so a missing acknowledge gives false
  after the stop. Whatever the levels were at entry (\<open>p0\<close>), both lines are high
  when the call returns.
\<close>

theorem i2c_write_stop_follows_start:
  "valid_wiring (wiring_of s) \<longrightarrow>
     snd (analyse (wiring_of s) idle (emitted s (snd (i2c_write addr data s)))) =
       Start # concat (map byte_syms (clocked (ack_at s) (nreads s) (push_bit 1 addr # data))) @ [Stop] \<and>
     fst (analyse (wiring_of s) p0 (emitted s (snd (i2c_write addr data s)))) = idle \<and>
     (fst (i2c_write addr data s) \<longleftrightarrow> all_acked (ack_at s) (nreads s) (Suc (length data))) \<and>
     snd (analyse (wiring_of s) idle (emitted s (snd (i2c_write_reg addr reg data s)))) =
       Start # concat (map byte_syms (clocked (ack_at s) (nreads s) (push_bit 1 addr # reg # data))) @ [Stop] \<and>
     fst (analyse (wiring_of s) p0 (emitted s (snd (i2c_write_reg addr reg data s)))) = idle \<and>
     (fst (i2c_write_reg addr reg data s) \<longleftrightarrow>
        all_acked (ack_at s) (nreads s) (Suc (Suc (length data))))"
proof
  assume w: "valid_wiring (wiring_of s)"
  have 1: "snd (analyse (wiring_of s) idle (txn_wave (wiring_of s) bs)) =
             Start # concat (map byte_syms bs) @ [Stop]" for bs
    using w by (simp add: analyse_txn txn_syms_def)
  have 2: "fst (analyse (wiring_of s) p0 (txn_wave (wiring_of s) bs)) = idle" for bs
    using w by (rule analyse_txn_ends_idle)
  show "snd (analyse (wiring_of s) idle (emitted s (snd (i2c_write addr data s)))) =
       Start # concat (map byte_syms (clocked (ack_at s) (nreads s) (push_bit 1 addr # data))) @ [Stop] \<and>
     fst (analyse (wiring_of s) p0 (emitted s (snd (i2c_write addr data s)))) = idle \<and>
     (fst (i2c_write addr data s) \<longleftrightarrow> all_acked (ack_at s) (nreads s) (Suc (length data))) \<and>
     snd (analyse (wiring_of s) idle (emitted s (snd (i2c_write_reg addr reg data s)))) =
       Start # concat (map byte_syms (clocked (ack_at s) (nreads s) (push_bit 1 addr # reg # data))) @ [Stop] \<and>
     fst (analyse (wiring_of s) p0 (emitted s (snd (i2c_write_reg addr reg data s)))) = idle \<and>
     (fst (i2c_write_reg addr reg data s) \<longleftrightarrow>
        all_acked (ack_at s) (nreads s) (Suc (Suc (length data))))"
    unfolding i2c_write_effect i2c_write_reg_effect fst_conv snd_conv emitted_effect
    using 1 2 by blast
qed

theorem i2c_write_stop_follows_start_witness:
  "valid_wiring (wiring_of (board acks_none)) \<and>
   \<not> fst (i2c_write 0x3C [0x80, 0xAE] (board acks_none)) \<and>
   snd (analyse (wiring_of (board acks_none)) idle
          (emitted (board acks_none) (snd (i2c_write 0x3C [0x80, 0xAE] (board acks_none))))) =
     Start # byte_syms 0x78 @ [Stop] \<and>
   fst (analyse (wiring_of (board acks_none)) (False, False, None)
     (emitted (board acks_none) (snd (i2c_write 0x3C [0x80, 0xAE] (board acks_none))))) = idle \<and>
   \<not> fst (i2c_write_reg 0x3C 0x40 [0xFF] (board acks_none)) \<and>
   fst (analyse (wiring_of (board acks_none)) (False, False, None)
     (emitted (board acks_none) (snd (i2c_write_reg 0x3C 0x40 [0xFF] (board acks_none))))) = idle"
proof -
  have wired: "valid_wiring (wiring_of (board acks_none))"
    by (rule valid_wiring_board)
  note w = i2c_write_stop_follows_start
      [rule_format, OF wired, of "0x3C" "[0x80, 0xAE]" "(False, False, None)" "0x40"]
  note r = i2c_write_stop_follows_start
      [rule_format, OF wired, of "0x3C" "[0xFF]" "(False, False, None)" "0x40"]
  have "\<not> fst (i2c_write 0x3C [0x80, 0xAE] (board acks_none))"
    using w by (simp add: ack_at_board_none)
  moreover have "snd (analyse (wiring_of (board acks_none)) idle
          (emitted (board acks_none) (snd (i2c_write 0x3C [0x80, 0xAE] (board acks_none))))) =
     Start # byte_syms 0x78 @ [Stop]"
    using w by (simp add: ack_at_board_none)
  moreover have "\<not> fst (i2c_write_reg 0x3C 0x40 [0xFF] (board acks_none))"
    using r by (simp add: ack_at_board_none)
  ultimately show ?thesis
    using wired w r by blast
qed

text \<open>
  C4. For every 7-bit address, register byte and payload on a valid wiring, when all
  bytes are acknowledged \<open>i2c_write_reg\<close> returns true and emits exactly the start
  condition, the byte \<open>addr << 1\<close>, the register byte, the payload bytes in order
  and the stop condition; an analyser decodes the single transaction
  \<open>[addr << 1, reg, data...]\<close>. Bit 0 of the first byte is clear (write) and the
  caller's address sits unshifted in bits 7..1.
\<close>

theorem i2c_write_reg_byte_sequence:
  "valid_wiring (wiring_of s) \<and> addr < 0x80 \<and> all_acked (ack_at s) (nreads s) (length data + 2) \<longrightarrow>
     fst (i2c_write_reg addr reg data s) \<and>
     emitted s (snd (i2c_write_reg addr reg data s)) =
       start_wave (wiring_of s) @ byte_wave (wiring_of s) (push_bit 1 addr) @
       byte_wave (wiring_of s) reg @ concat (map (byte_wave (wiring_of s)) data) @
       stop_wave (wiring_of s) \<and>
     bus_transactions (wiring_of s) (emitted s (snd (i2c_write_reg addr reg data s))) =
       [push_bit 1 addr # reg # data] \<and>
     \<not> bit (push_bit 1 addr) 0 \<and> drop_bit 1 (push_bit 1 addr) = addr"
proof (intro impI, elim conjE)
  assume w: "valid_wiring (wiring_of s)" and a: "addr < 0x80"
    and acks: "all_acked (ack_at s) (nreads s) (length data + 2)"
  from acks have cl: "clocked (ack_at s) (nreads s) (push_bit 1 addr # reg # data) =
      push_bit 1 addr # reg # data"
    using clocked_all_acked [of "ack_at s" "nreads s" "push_bit 1 addr # reg # data"] by simp
  have ok: "fst (i2c_write_reg addr reg data s)"
    using acks by (simp add: i2c_write_reg_effect)
  have ev: "emitted s (snd (i2c_write_reg addr reg data s)) =
      txn_wave (wiring_of s) (push_bit 1 addr # reg # data)"
    by (simp only: i2c_write_reg_effect cl snd_conv emitted_effect)
  have tr: "bus_transactions (wiring_of s) (txn_wave (wiring_of s) (push_bit 1 addr # reg # data)) =
      [push_bit 1 addr # reg # data]"
    using bus_transactions_txns [OF w, of "[push_bit 1 addr # reg # data]"] by simp
  show "fst (i2c_write_reg addr reg data s) \<and>
     emitted s (snd (i2c_write_reg addr reg data s)) =
       start_wave (wiring_of s) @ byte_wave (wiring_of s) (push_bit 1 addr) @
       byte_wave (wiring_of s) reg @ concat (map (byte_wave (wiring_of s)) data) @
       stop_wave (wiring_of s) \<and>
     bus_transactions (wiring_of s) (emitted s (snd (i2c_write_reg addr reg data s))) =
       [push_bit 1 addr # reg # data] \<and>
     \<not> bit (push_bit 1 addr) 0 \<and> drop_bit 1 (push_bit 1 addr) = addr"
    using ok tr shifted_address_is_write [of addr] shifted_address_keeps_7_bits [OF a]
    by (simp add: ev txn_wave_def)
qed

theorem i2c_write_reg_byte_sequence_witness:
  "valid_wiring (wiring_of (board acks_all)) \<and> (0x3C :: u8) < 0x80 \<and>
   all_acked (ack_at (board acks_all)) (nreads (board acks_all)) (length [0x11, 0x22 :: u8] + 2) \<and>
   fst (i2c_write_reg 0x3C 0x40 [0x11, 0x22] (board acks_all)) \<and>
   bus_transactions (wiring_of (board acks_all))
     (emitted (board acks_all) (snd (i2c_write_reg 0x3C 0x40 [0x11, 0x22] (board acks_all)))) =
     [[0x78, 0x40, 0x11, 0x22]]"
proof -
  have h: "valid_wiring (wiring_of (board acks_all)) \<and> (0x3C :: u8) < 0x80 \<and>
   all_acked (ack_at (board acks_all)) (nreads (board acks_all)) (length [0x11, 0x22 :: u8] + 2)"
    by (simp add: valid_wiring_board ack_at_board_all)
  note t = i2c_write_reg_byte_sequence [rule_format, OF h, of "0x40"]
  have "fst (i2c_write_reg 0x3C 0x40 [0x11, 0x22] (board acks_all))"
    using t by (rule conjunct1)
  moreover have "bus_transactions (wiring_of (board acks_all))
     (emitted (board acks_all) (snd (i2c_write_reg 0x3C 0x40 [0x11, 0x22] (board acks_all)))) =
     [[0x78, 0x40, 0x11, 0x22]]"
    using t [THEN conjunct2, THEN conjunct2, THEN conjunct1] by simp
  ultimately show ?thesis
    using h by blast
qed

section \<open>Framebuffer\<close>

lemma c_div_nonneg: "0 \<le> a \<Longrightarrow> 0 < b \<Longrightarrow> c_div a b = a div b"
  by (cases "a = 0") (simp_all add: c_div_def)

lemma row_bit_bound: "0 \<le> y \<Longrightarrow> nat (y AND 7) < 8"
proof -
  assume "0 \<le> y"
  have "y AND 7 \<le> 7"
    by (rule AND_upper2) simp
  then show ?thesis by linarith
qed

lemma pixel_index_bound:
  assumes "0 \<le> x" "x < 128" "0 \<le> y" "y < 64"
  shows "nat (x + (y div 8) * 128) < 1024"
proof -
  from assms have "y div 8 \<le> 7" by simp
  with assms show ?thesis by simp
qed

lemma set_pixel_in_bounds:
  assumes "0 \<le> x" "x < 128" "0 \<le> y" "y < 64"
  shows "ssd1306_set_pixel x y color s =
           s\<lparr>ssd1306_buffer := (ssd1306_buffer s)[nat (x + (y div 8) * 128) :=
              (if color \<noteq> 0
               then ssd1306_buffer s ! nat (x + (y div 8) * 128) OR push_bit (nat (y AND 7)) 1
               else ssd1306_buffer s ! nat (x + (y div 8) * 128) AND NOT (push_bit (nat (y AND 7)) 1))]\<rparr>"
  using assms
  by (simp add: ssd1306_set_pixel_def SSD1306_WIDTH_def SSD1306_HEIGHT_def c_div_nonneg Let_def)

lemma set_pixel_out_of_bounds:
  "\<not> (0 \<le> x \<and> x < 128 \<and> 0 \<le> y \<and> y < 64) \<Longrightarrow> ssd1306_set_pixel x y color s = s"
  by (auto simp add: ssd1306_set_pixel_def SSD1306_WIDTH_def SSD1306_HEIGHT_def)

lemma bit_set_reads_back: "k < 8 \<Longrightarrow> bit ((v :: u8) OR push_bit k 1) k"
  by (simp add: bit_simps)

lemma bit_clear_reads_back: "k < 8 \<Longrightarrow> \<not> bit ((v :: u8) AND NOT (push_bit k 1)) k"
  by (simp add: bit_simps)

text \<open>
  C6. For every coordinate with \<open>0 \<le> x < 128\<close> and \<open>0 \<le> y < 64\<close> and every
  colour, after \<open>ssd1306_set_pixel x y color\<close> bit \<open>y & 7\<close> of framebuffer byte
  \<open>x + (y / 8) * 128\<close> is set exactly when the colour is non-zero (the framebuffer
  being the 1024-byte array of the driver). For every other coordinate the call
  changes nothing.
\<close>

theorem ssd1306_set_pixel_reads_back:
  "(0 \<le> x \<and> x < 128 \<and> 0 \<le> y \<and> y < 64 \<and> length (ssd1306_buffer s) = 1024 \<longrightarrow>
      bit (ssd1306_buffer (ssd1306_set_pixel x y color s) ! nat (x + (y div 8) * 128))
          (nat (y AND 7)) = (color \<noteq> 0)) \<and>
   (\<not> (0 \<le> x \<and> x < 128 \<and> 0 \<le> y \<and> y < 64) \<longrightarrow> ssd1306_set_pixel x y color s = s)"
proof (intro conjI impI)
  assume b: "0 \<le> x \<and> x < 128 \<and> 0 \<le> y \<and> y < 64 \<and> length (ssd1306_buffer s) = 1024"
  then have i: "nat (x + (y div 8) * 128) < length (ssd1306_buffer s)"
    using pixel_index_bound [of x y] by simp
  from b have k: "nat (y AND 7) < 8"
    by (simp add: row_bit_bound)
  from b have eq: "ssd1306_set_pixel x y color s =
           s\<lparr>ssd1306_buffer := (ssd1306_buffer s)[nat (x + (y div 8) * 128) :=
              (if color \<noteq> 0
               then ssd1306_buffer s ! nat (x + (y div 8) * 128) OR push_bit (nat (y AND 7)) 1
               else ssd1306_buffer s ! nat (x + (y div 8) * 128) AND NOT (push_bit (nat (y AND 7)) 1))]\<rparr>"
    by (simp add: set_pixel_in_bounds)
  show "bit (ssd1306_buffer (ssd1306_set_pixel x y color s) ! nat (x + (y div 8) * 128))
          (nat (y AND 7)) = (color \<noteq> 0)"
    using i bit_set_reads_back [OF k] bit_clear_reads_back [OF k]
    by (simp only: eq) simp
next
  assume "\<not> (0 \<le> x \<and> x < 128 \<and> 0 \<le> y \<and> y < 64)"
  then show "ssd1306_set_pixel x y color s = s"
    by (rule set_pixel_out_of_bounds)
qed

theorem ssd1306_set_pixel_reads_back_witness:
  "(0::int) \<le> 10 \<and> (10::int) < 128 \<and> (0::int) \<le> 20 \<and> (20::int) < 64 \<and>
   length (ssd1306_buffer (board acks_all)) = 1024 \<and>
   bit (ssd1306_buffer (ssd1306_set_pixel 10 20 1 (board acks_all)) ! 266) 4 \<and>
   \<not> bit (ssd1306_buffer (ssd1306_set_pixel 10 20 0 (board acks_all)) ! 266) 4 \<and>
   \<not> (0 \<le> (128::int) \<and> (128::int) < 128 \<and> (0::int) \<le> 0 \<and> (0::int) < 64) \<and>
   ssd1306_set_pixel 128 0 1 (board acks_all) = board acks_all"
proof -
  have h: "(0::int) \<le> 10 \<and> (10::int) < 128 \<and> (0::int) \<le> 20 \<and> (20::int) < 64 \<and>
      length (ssd1306_buffer (board acks_all)) = 1024"
    by (simp add: board_def)
  have o: "\<not> (0 \<le> (128::int) \<and> (128::int) < 128 \<and> (0::int) \<le> 0 \<and> (0::int) < 64)"
    by simp
  note t = ssd1306_set_pixel_reads_back [THEN conjunct1, rule_format, OF h]
  have ix: "nat (10 + (20 div 8) * 128) = 266" "nat ((20::int) AND 7) = 4"
    by simp_all
  have "bit (ssd1306_buffer (ssd1306_set_pixel 10 20 1 (board acks_all)) ! 266) 4"
    using t [of 1] unfolding ix by simp
  moreover have "\<not> bit (ssd1306_buffer (ssd1306_set_pixel 10 20 0 (board acks_all)) ! 266) 4"
    using t [of 0] unfolding ix by simp
  moreover have "ssd1306_set_pixel 128 0 1 (board acks_all) = board acks_all"
    using ssd1306_set_pixel_reads_back [THEN conjunct2, rule_format, OF o] .
  ultimately show ?thesis
    using h o by blast
qed

lemma set_idempotent: "((v :: u8) OR m) OR m = v OR m"
  by (simp add: bit_eq_iff bit_simps)

lemma clear_idempotent: "((v :: u8) AND NOT m) AND NOT m = v AND NOT m"
  by (simp add: bit_eq_iff bit_simps)

lemma update_twice:
  assumes "\<And>v. f (f v) = f v"
  shows "(xs[i := f (xs ! i)])[i := f (xs[i := f (xs ! i)] ! i)] = xs[i := f (xs ! i)]"
  by (cases "i < length xs") (simp_all add: assms list_update_beyond)

text \<open>
  C10. For every in-bounds coordinate and colour, \<open>ssd1306_set_pixel\<close> changes at most
  the framebuffer byte at index \<open>x + (y / 8) * 128\<close>: the new state is the old one with
  that byte replaced, the length of the framebuffer is kept and every other byte is
  unchanged. For every out-of-bounds coordinate nothing changes. Calling it twice with
  the same arguments gives the same state as calling it once.
\<close>

theorem ssd1306_set_pixel_frame:
  "(0 \<le> x \<and> x < 128 \<and> 0 \<le> y \<and> y < 64 \<longrightarrow>
      (\<exists>v. ssd1306_set_pixel x y color s =
             s\<lparr>ssd1306_buffer := (ssd1306_buffer s)[nat (x + (y div 8) * 128) := v]\<rparr>) \<and>
      length (ssd1306_buffer (ssd1306_set_pixel x y color s)) = length (ssd1306_buffer s) \<and>
      (\<forall>i. i \<noteq> nat (x + (y div 8) * 128) \<longrightarrow>
         ssd1306_buffer (ssd1306_set_pixel x y color s) ! i = ssd1306_buffer s ! i)) \<and>
   (\<not> (0 \<le> x \<and> x < 128 \<and> 0 \<le> y \<and> y < 64) \<longrightarrow> ssd1306_set_pixel x y color s = s) \<and>
   ssd1306_set_pixel x y color (ssd1306_set_pixel x y color s) = ssd1306_set_pixel x y color s"
proof (intro conjI impI)
  assume b: "0 \<le> x \<and> x < 128 \<and> 0 \<le> y \<and> y < 64"
  then have eq: "ssd1306_set_pixel x y color s =
           s\<lparr>ssd1306_buffer := (ssd1306_buffer s)[nat (x + (y div 8) * 128) :=
              (if color \<noteq> 0
               then ssd1306_buffer s ! nat (x + (y div 8) * 128) OR push_bit (nat (y AND 7)) 1
               else ssd1306_buffer s ! nat (x + (y div 8) * 128) AND NOT (push_bit (nat (y AND 7)) 1))]\<rparr>"
    by (simp add: set_pixel_in_bounds)
  then show "\<exists>v. ssd1306_set_pixel x y color s =
             s\<lparr>ssd1306_buffer := (ssd1306_buffer s)[nat (x + (y div 8) * 128) := v]\<rparr>"
    by (rule exI)
  show "length (ssd1306_buffer (ssd1306_set_pixel x y color s)) = length (ssd1306_buffer s)"
    by (simp only: eq) simp
  show "\<forall>i. i \<noteq> nat (x + (y div 8) * 128) \<longrightarrow>
         ssd1306_buffer (ssd1306_set_pixel x y color s) ! i = ssd1306_buffer s ! i"
    by (simp only: eq) simp
next
  assume "\<not> (0 \<le> x \<and> x < 128 \<and> 0 \<le> y \<and> y < 64)"
  then show "ssd1306_set_pixel x y color s = s"
    by (rule set_pixel_out_of_bounds)
next
  show "ssd1306_set_pixel x y color (ssd1306_set_pixel x y color s) = ssd1306_set_pixel x y color s"
  proof (cases "0 \<le> x \<and> x < 128 \<and> 0 \<le> y \<and> y < 64")
    case False
    then show ?thesis by (simp add: set_pixel_out_of_bounds)
  next
    case True
    then have b: "0 \<le> x" "x < 128" "0 \<le> y" "y < 64" by simp_all
    show ?thesis
    proof (cases "color \<noteq> 0")
      case True
      then show ?thesis
        using update_twice [of "\<lambda>v. v OR push_bit (nat (y AND 7)) 1" "ssd1306_buffer s"
            "nat (x + (y div 8) * 128)", OF set_idempotent]
        by (simp add: set_pixel_in_bounds [OF b])
    next
      case False
      then show ?thesis
        using update_twice [of "\<lambda>v. v AND NOT (push_bit (nat (y AND 7)) 1)" "ssd1306_buffer s"
            "nat (x + (y div 8) * 128)", OF clear_idempotent]
        by (simp add: set_pixel_in_bounds [OF b])
    qed
  qed
qed

theorem ssd1306_set_pixel_frame_witness:
  "(0::int) \<le> 10 \<and> (10::int) < 128 \<and> (0::int) \<le> 20 \<and> (20::int) < 64 \<and>
   ssd1306_buffer (ssd1306_set_pixel 10 20 1 (board acks_all)) ! 265 =
     ssd1306_buffer (board acks_all) ! 265 \<and>
   \<not> (0 \<le> (0::int) \<and> (0::int) < 128 \<and> (0::int) \<le> 64 \<and> (64::int) < 64) \<and>
   ssd1306_set_pixel 0 64 1 (board acks_all) = board acks_all \<and>
   ssd1306_set_pixel 10 20 1 (ssd1306_set_pixel 10 20 1 (board acks_all)) =
     ssd1306_set_pixel 10 20 1 (board acks_all)"
proof -
  have h: "(0::int) \<le> 10 \<and> (10::int) < 128 \<and> (0::int) \<le> 20 \<and> (20::int) < 64"
    by simp
  have o: "\<not> (0 \<le> (0::int) \<and> (0::int) < 128 \<and> (0::int) \<le> 64 \<and> (64::int) < 64)"
    by simp
  note t = ssd1306_set_pixel_frame [of 10 20 1 "board acks_all"]
  have "\<forall>i. i \<noteq> nat (10 + (20 div 8) * 128) \<longrightarrow>
         ssd1306_buffer (ssd1306_set_pixel 10 20 1 (board acks_all)) ! i =
         ssd1306_buffer (board acks_all) ! i"
    using t h by blast
  then have "ssd1306_buffer (ssd1306_set_pixel 10 20 1 (board acks_all)) ! 265 =
     ssd1306_buffer (board acks_all) ! 265"
    by simp
  moreover have "ssd1306_set_pixel 0 64 1 (board acks_all) = board acks_all"
    using ssd1306_set_pixel_frame [of 0 64 1 "board acks_all"] o by blast
  moreover have "ssd1306_set_pixel 10 20 1 (ssd1306_set_pixel 10 20 1 (board acks_all)) =
     ssd1306_set_pixel 10 20 1 (board acks_all)"
    using t by blast
  ultimately show ?thesis
    using h o by blast
qed

section \<open>Text\<close>

lemma draw_glyph_line_off_screen: "64 \<le> y \<Longrightarrow> draw_glyph_line x y line s = s"
proof -
  assume y: "64 \<le> y"
  have "foldl (\<lambda>s j. if bit line j then ssd1306_set_pixel x (y + int j) 1 s else s) s js = s" for js
    using y by (induction js) (simp_all add: set_pixel_out_of_bounds)
  then show ?thesis by (simp add: draw_glyph_line_def)
qed

lemma draw_char_off_screen: "64 \<le> y \<Longrightarrow> ssd1306_draw_char f x y c s = s"
proof -
  assume y: "64 \<le> y"
  have "foldl (\<lambda>s i. draw_glyph_line (x + int i) y (g i) s) s js = s" for js g
    using y by (induction js) (simp_all add: draw_glyph_line_off_screen)
  then show ?thesis by (simp add: ssd1306_draw_char_def Let_def)
qed

lemma draw_string_loop_off_screen: "64 \<le> y \<Longrightarrow> draw_string_loop f x cur y str s = s"
  by (induction str arbitrary: cur y) (simp_all add: draw_char_off_screen Let_def)

lemma length_set_pixel [simp]:
  "length (ssd1306_buffer (ssd1306_set_pixel x y c s)) = length (ssd1306_buffer s)"
  by (simp add: ssd1306_set_pixel_def Let_def)

lemma length_draw_glyph_line [simp]:
  "length (ssd1306_buffer (draw_glyph_line x y line s)) = length (ssd1306_buffer s)"
proof -
  have "length (ssd1306_buffer
          (foldl (\<lambda>s j. if bit line j then ssd1306_set_pixel x (y + int j) 1 s else s) s js)) =
        length (ssd1306_buffer s)" for js
    by (induction js arbitrary: s) simp_all
  then show ?thesis by (simp add: draw_glyph_line_def)
qed

lemma length_draw_char [simp]:
  "length (ssd1306_buffer (ssd1306_draw_char f x y c s)) = length (ssd1306_buffer s)"
proof -
  have "length (ssd1306_buffer (foldl (\<lambda>s i. draw_glyph_line (x + int i) y (g i) s) s js)) =
        length (ssd1306_buffer s)" for js g
    by (induction js arbitrary: s) simp_all
  then show ?thesis by (simp add: ssd1306_draw_char_def Let_def)
qed

lemma length_draw_string_loop:
  "length (ssd1306_buffer (draw_string_loop f x cur y str s)) = length (ssd1306_buffer s)"
  by (induction str arbitrary: cur y s) (simp_all add: Let_def)

lemma draw_string_loop_path:
  "draw_string_loop f x cur y str s =
     foldl (\<lambda>s (cx, cy, c). ssd1306_draw_char f cx cy c s) s (spec_cursor_path x cur y str)"
  by (induction str arbitrary: cur y s) (simp_all add: Let_def SSD1306_WIDTH_def)

lemma cursor_path_one_row:
  "0 \<notin> set str \<Longrightarrow> 10 \<notin> set str \<Longrightarrow> cur + 6 * int (length str) \<le> 128 \<Longrightarrow>
     spec_cursor_path x cur y str = map (\<lambda>k. (cur + 6 * int k, y, str ! k)) [0..<length str]"
proof (induction str arbitrary: cur)
  case Nil
  show ?case by simp
next
  case (Cons c cs)
  show ?case
  proof (cases cs)
    case Nil
    with Cons.prems show ?thesis by simp
  next
    case (Cons d ds)
    with Cons.prems have fit: "cur + 6 < 128" "(cur + 6) + 6 * int (length cs) \<le> 128"
      by simp_all
    from Cons.prems have ok: "0 \<notin> set cs" "10 \<notin> set cs" "c \<noteq> 0" "c \<noteq> 10"
      by auto
    have "spec_cursor_path x cur y (c # cs) = (cur, y, c) # spec_cursor_path x (cur + 6) y cs"
      using fit ok by simp
    also have "spec_cursor_path x (cur + 6) y cs =
        map (\<lambda>k. (cur + 6 + 6 * int k, y, cs ! k)) [0..<length cs]"
      using Cons.IH [OF ok(1) ok(2) fit(2)] .
    also have "(cur, y, c) # map (\<lambda>k. (cur + 6 + 6 * int k, y, cs ! k)) [0..<length cs] =
        map (\<lambda>k. (cur + 6 * int k, y, (c # cs) ! k)) [0..<length (c # cs)]"
      by (simp add: upt_conv_Cons map_Suc_upt [symmetric] del: upt_Suc) 
    finally show ?thesis .
  qed
qed

lemma lit_stays_lit:
  assumes "bit (ssd1306_buffer s ! i) k"
  shows "bit (ssd1306_buffer (ssd1306_set_pixel x y 1 s) ! i) k"
proof (cases "0 \<le> x \<and> x < 128 \<and> 0 \<le> y \<and> y < 64")
  case False
  with assms show ?thesis by (simp add: set_pixel_out_of_bounds)
next
  case True
  then have b: "0 \<le> x" "x < 128" "0 \<le> y" "y < 64" by simp_all
  show ?thesis
  proof (cases "nat (x + (y div 8) * 128) < length (ssd1306_buffer s)")
    case False
    with assms show ?thesis
      by (simp add: set_pixel_in_bounds [OF b] list_update_beyond)
  next
    case True
    with assms show ?thesis
      by (cases "i = nat (x + (y div 8) * 128)")
        (simp_all add: set_pixel_in_bounds [OF b] bit_simps)
  qed
qed

lemma pixels_keep_lit:
  "bit (ssd1306_buffer s ! i) k \<Longrightarrow>
   bit (ssd1306_buffer
     (foldl (\<lambda>s j. if bit line j then ssd1306_set_pixel x (y + int j) 1 s else s) s js) ! i) k"
  by (induction js arbitrary: s) (simp_all add: lit_stays_lit)

lemma glyph_line_keeps_lit:
  "bit (ssd1306_buffer s ! i) k \<Longrightarrow> bit (ssd1306_buffer (draw_glyph_line x y line s) ! i) k"
  by (simp add: draw_glyph_line_def pixels_keep_lit)

lemma glyph_lines_keep_lit:
  "bit (ssd1306_buffer s ! i) k \<Longrightarrow>
   bit (ssd1306_buffer (foldl (\<lambda>s i. draw_glyph_line (x + int i) y (g i) s) s js) ! i) k"
  by (induction js arbitrary: s) (simp_all add: glyph_line_keeps_lit)

lemma draw_char_lights_corner:
  assumes c: "32 \<le> unat c" "unat c \<le> 126"
    and g: "bit (f (unat c - 32) 0) 0"
    and n: "0 < length (ssd1306_buffer s)"
  shows "bit (ssd1306_buffer (ssd1306_draw_char f 0 0 c s) ! 0) 0"
proof -
  have first: "bit (ssd1306_buffer (ssd1306_set_pixel 0 0 1 s) ! 0) 0"
    using n by (simp add: set_pixel_in_bounds bit_simps)
  have "draw_glyph_line 0 0 (f (unat c - 32) 0) s =
      foldl (\<lambda>s j. if bit (f (unat c - 32) 0) j then ssd1306_set_pixel 0 (0 + int j) 1 s else s)
        (ssd1306_set_pixel 0 0 1 s) [1..<7]"
    using g by (simp add: draw_glyph_line_def upt_conv_Cons)
  then have line: "bit (ssd1306_buffer (draw_glyph_line 0 0 (f (unat c - 32) 0) s) ! 0) 0"
    using pixels_keep_lit [OF first, of "f (unat c - 32) 0" 0 0 "[1..<7]"] by simp
  have "ssd1306_draw_char f 0 0 c s =
      foldl (\<lambda>s i. draw_glyph_line (0 + int i) 0 (f (unat c - 32) i) s)
        (draw_glyph_line 0 0 (f (unat c - 32) 0) s) [1..<5]"
    using c by (simp add: ssd1306_draw_char_def upt_conv_Cons Let_def)
  then show ?thesis
    using glyph_lines_keep_lit [OF line, of 0 0 "f (unat c - 32)" "[1..<5]"] by simp
qed




section \<open>Initialisation\<close>

lemma REG_WRITE_effect: "REG_WRITE a v s = emit [RegWrite a v] s"
  by (simp add: REG_WRITE_def emit_def)

lemma gpio_set_opendrain_effect: "\<exists>n evs. gpio_set_opendrain p s = tick n (emit evs s)"
proof (cases "p < 0 \<or> p > 21")
  case True
  then have "gpio_set_opendrain p s = tick 0 (emit [] s)"
    by (simp add: gpio_set_opendrain_def)
  then show ?thesis by blast
next
  case False
  then show ?thesis
    by (simp add: gpio_set_opendrain_def REG_SET_BIT_def REG_READ_effect REG_WRITE_effect Let_def)
      blast
qed

lemma i2c_init_effect:
  assumes "freq_hz cfg \<noteq> 0"
  shows "\<exists>n evs. i2c_init cfg s =
           Some (tick n (emit evs (s\<lparr>scl_gpio := scl_pin cfg, sda_gpio := sda_pin cfg,
                  i2c_delay_cycles := (160000000 div freq_hz cfg) div 4\<rparr>)))"
proof -
  let ?s0 = "s\<lparr>scl_gpio := scl_pin cfg, sda_gpio := sda_pin cfg,
                  i2c_delay_cycles := (160000000 div freq_hz cfg) div 4\<rparr>"
  obtain n1 e1 where 1: "gpio_set_opendrain (scl_pin cfg) ?s0 = tick n1 (emit e1 ?s0)"
    using gpio_set_opendrain_effect by blast
  obtain n2 e2 where 2: "gpio_set_opendrain (sda_pin cfg) (tick n1 (emit e1 ?s0)) =
      tick n2 (emit e2 (tick n1 (emit e1 ?s0)))"
    using gpio_set_opendrain_effect by blast
  have "i2c_init cfg s = Some (tick (n1 + n2) (emit (e1 @ e2 @
      release_line (wiring_of ?s0) (sda_pin cfg) @ release_line (wiring_of ?s0) (scl_pin cfg)) ?s0))"
    using assms by (simp add: i2c_init_def Let_def 1 2 line_ops)
  then show ?thesis by blast
qed

lemma send_command_effect:
  "ssd1306_send_command c s =
     (all_acked (ack_at s) (nreads s) 3,
      tick (length (clocked (ack_at s) (nreads s)
              [push_bit 1 (ssd1306_i2c_addr s), SSD1306_CONTROL_CMD_SINGLE, c]))
        (emit (txn_wave (wiring_of s) (clocked (ack_at s) (nreads s)
              [push_bit 1 (ssd1306_i2c_addr s), SSD1306_CONTROL_CMD_SINGLE, c])) s))"
  by (simp only: ssd1306_send_command_def i2c_write_effect) (simp add: numeral_3_eq_3)

lemma send_command_keeps:
  "i2c_delay_cycles (snd (ssd1306_send_command c s)) = i2c_delay_cycles s"
  "scl_gpio (snd (ssd1306_send_command c s)) = scl_gpio s"
  "sda_gpio (snd (ssd1306_send_command c s)) = sda_gpio s"
  "ssd1306_buffer (snd (ssd1306_send_command c s)) = ssd1306_buffer s"
  "ssd1306_i2c_addr (snd (ssd1306_send_command c s)) = ssd1306_i2c_addr s"
  "hw_in (snd (ssd1306_send_command c s)) = hw_in s"
  by (simp_all only: send_command_effect snd_conv fields_tick fields_emit)

lemma send_data_keeps:
  "i2c_delay_cycles (snd (ssd1306_send_data d s)) = i2c_delay_cycles s"
  "scl_gpio (snd (ssd1306_send_data d s)) = scl_gpio s"
  "sda_gpio (snd (ssd1306_send_data d s)) = sda_gpio s"
  "ssd1306_buffer (snd (ssd1306_send_data d s)) = ssd1306_buffer s"
  "ssd1306_i2c_addr (snd (ssd1306_send_data d s)) = ssd1306_i2c_addr s"
  "hw_in (snd (ssd1306_send_data d s)) = hw_in s"
  by (simp_all only: ssd1306_send_data_effect i2c_write_reg_effect snd_conv fields_tick fields_emit)

lemma display_keeps:
  "i2c_delay_cycles (ssd1306_display s) = i2c_delay_cycles s"
  "scl_gpio (ssd1306_display s) = scl_gpio s"
  "sda_gpio (ssd1306_display s) = sda_gpio s"
  "ssd1306_buffer (ssd1306_display s) = ssd1306_buffer s"
  "ssd1306_i2c_addr (ssd1306_display s) = ssd1306_i2c_addr s"
  "hw_in (ssd1306_display s) = hw_in s"
  by (simp_all only: ssd1306_display_def Let_def send_command_keeps send_data_keeps)

lemma init_delay_value: "(160000000 div 400000) div 4 = (100 :: u32)"
  by simp

text \<open>
  C8. For every non-zero frequency, \<open>i2c_init\<close> returns and stores
  \<open>(160000000 / freq_hz) / 4\<close>, in unsigned 32-bit integer division, in
  \<open>i2c_delay_cycles\<close>, and that is the iteration count of every later
  \<open>i2c_delay\<close>. \<open>ssd1306_init\<close> initialises the bus at 400000 Hz, returns, and leaves
  the count at exactly 100.
\<close>

theorem i2c_init_delay_count:
  "(freq_hz cfg \<noteq> 0 \<longrightarrow>
      (\<exists>s'. i2c_init cfg s = Some s' \<and>
            i2c_delay_cycles s' = (160000000 div freq_hz cfg) div 4 \<and>
            i2c_delay s' = busy_wait (unat ((160000000 div freq_hz cfg) div 4)) s')) \<and>
   (\<exists>s'. ssd1306_init config s = Some (True, s') \<and> i2c_delay_cycles s' = 100)"
proof (intro conjI impI)
  assume f: "freq_hz cfg \<noteq> 0"
  from i2c_init_effect [OF f] obtain n evs where
    "i2c_init cfg s = Some (tick n (emit evs (s\<lparr>scl_gpio := scl_pin cfg, sda_gpio := sda_pin cfg,
        i2c_delay_cycles := (160000000 div freq_hz cfg) div 4\<rparr>)))"
    by blast
  then show "\<exists>s'. i2c_init cfg s = Some s' \<and>
            i2c_delay_cycles s' = (160000000 div freq_hz cfg) div 4 \<and>
            i2c_delay s' = busy_wait (unat ((160000000 div freq_hz cfg) div 4)) s'"
    by (simp add: i2c_delay_def)
next
  let ?cfg = "\<lparr>scl_pin = oled_scl_pin config, sda_pin = oled_sda_pin config, freq_hz = 400000\<rparr>"
  have "freq_hz ?cfg \<noteq> 0" by simp
  from i2c_init_effect [OF this] obtain n evs where
    i: "i2c_init ?cfg (s\<lparr>ssd1306_i2c_addr := i2c_addr config\<rparr>) =
      Some (tick n (emit evs (s\<lparr>ssd1306_i2c_addr := i2c_addr config\<rparr>
         \<lparr>scl_gpio := scl_pin ?cfg, sda_gpio := sda_pin ?cfg,
          i2c_delay_cycles := (160000000 div freq_hz ?cfg) div 4\<rparr>)))"
    by blast
  have d: "i2c_delay_cycles (busy_wait 100000 (tick n (emit evs (s\<lparr>ssd1306_i2c_addr := i2c_addr config\<rparr>
         \<lparr>scl_gpio := scl_pin ?cfg, sda_gpio := sda_pin ?cfg,
          i2c_delay_cycles := (160000000 div freq_hz ?cfg) div 4\<rparr>)))) = 100"
    by (simp add: busy_wait_def)
  show "\<exists>s'. ssd1306_init config s = Some (True, s') \<and> i2c_delay_cycles s' = 100"
    unfolding ssd1306_init_def Let_def i option.case
    using d by (simp add: display_keeps send_command_keeps ssd1306_clear_def)
qed

theorem i2c_init_delay_count_witness:
  "freq_hz \<lparr>scl_pin = 7, sda_pin = 6, freq_hz = 100000\<rparr> \<noteq> 0 \<and>
   (\<exists>s'. i2c_init \<lparr>scl_pin = 7, sda_pin = 6, freq_hz = 100000\<rparr> (power_on acks_none) = Some s' \<and>
         i2c_delay_cycles s' = 400) \<and>
   (\<exists>s'. ssd1306_init oled_config (power_on acks_none) = Some (True, s') \<and>
         i2c_delay_cycles s' = 100)"
proof -
  have h: "freq_hz \<lparr>scl_pin = 7, sda_pin = 6, freq_hz = 100000\<rparr> \<noteq> 0"
    by simp
  have v: "(160000000 div freq_hz \<lparr>scl_pin = 7, sda_pin = 6, freq_hz = 100000\<rparr>) div 4 = 400"
    by simp
  note t = i2c_init_delay_count [where cfg = "\<lparr>scl_pin = 7, sda_pin = 6, freq_hz = 100000\<rparr>"
      and s = "power_on acks_none" and config = oled_config]
  from t h have "\<exists>s'. i2c_init \<lparr>scl_pin = 7, sda_pin = 6, freq_hz = 100000\<rparr> (power_on acks_none) = Some s' \<and>
         i2c_delay_cycles s' = (160000000 div freq_hz \<lparr>scl_pin = 7, sda_pin = 6, freq_hz = 100000\<rparr>) div 4"
    by blast
  then have "\<exists>s'. i2c_init \<lparr>scl_pin = 7, sda_pin = 6, freq_hz = 100000\<rparr> (power_on acks_none) = Some s' \<and>
         i2c_delay_cycles s' = 400"
    by (simp only: v)
  with t h show ?thesis by blast
qed

lemma init_returns_true: "\<exists>s'. ssd1306_init config s = Some (True, s')"
  by (simp add: ssd1306_init_def i2c_init_def Let_def)

lemma send_command_nack: "\<not> ack_at s (nreads s) \<Longrightarrow> \<not> fst (ssd1306_send_command c s)"
  by (simp add: send_command_effect numeral_3_eq_3)

text \<open>
  C9. For every configuration, every state and every behaviour of the inputs,
  \<open>ssd1306_init\<close> returns true: the results of its command transactions are dropped.
  So \<open>app_main\<close> always takes the success branch. A command transaction whose address
  byte is not acknowledged does return false to \<open>ssd1306_init\<close>.
\<close>

theorem ssd1306_init_never_fails:
  "(\<exists>s'. ssd1306_init config s = Some (True, s')) \<and>
   app_main_oled_report s = Some (''OLED initialized successfully!'' @ [CHR 0x0A]) \<and>
   (\<not> ack_at s (nreads s) \<longrightarrow> \<not> fst (ssd1306_send_command c s))"
proof (intro conjI impI)
  show "\<exists>s'. ssd1306_init config s = Some (True, s')"
    by (rule init_returns_true)
  obtain s' where "ssd1306_init oled_config s = Some (True, s')"
    using init_returns_true by blast
  then show "app_main_oled_report s = Some (''OLED initialized successfully!'' @ [CHR 0x0A])"
    by (simp add: app_main_oled_report_def)
next
  assume "\<not> ack_at s (nreads s)"
  then show "\<not> fst (ssd1306_send_command c s)"
    by (rule send_command_nack)
qed

theorem ssd1306_init_never_fails_witness:
  "(\<exists>s'. ssd1306_init oled_config (power_on acks_none) = Some (True, s')) \<and>
   app_main_oled_report (power_on acks_none) =
     Some (''OLED initialized successfully!'' @ [CHR 0x0A]) \<and>
   \<not> ack_at (board acks_none) (nreads (board acks_none)) \<and>
   \<not> fst (ssd1306_send_command 0xAE (board acks_none))"
proof -
  have h: "\<not> ack_at (board acks_none) (nreads (board acks_none))"
    by (simp add: ack_at_board_none)
  note t = ssd1306_init_never_fails [where config = oled_config and s = "power_on acks_none"]
  note u = ssd1306_init_never_fails [where config = oled_config and s = "board acks_none"
      and c = "0xAE"]
  from t u h show ?thesis by blast
qed

section \<open>Display traffic with a responding device\<close>

lemma all_acked_from: "(\<forall>j\<ge>k. ack j) \<Longrightarrow> all_acked ack k n"
  by (induction n arbitrary: k) simp_all

lemma always_acked_all: "always_acked s \<Longrightarrow> all_acked (ack_at s) (nreads s) n"
  by (rule all_acked_from) (simp add: always_acked_def)

lemma always_acked_step [simp]: "always_acked s \<Longrightarrow> always_acked (tick n (emit evs s))"
  by (simp add: always_acked_def)

lemma always_acked_clear [simp]: "always_acked (ssd1306_clear s) = always_acked s"
  by (simp add: always_acked_def ssd1306_clear_def ack_at_def)

lemma i2c_write_acked:
  assumes "always_acked s"
  shows "i2c_write addr data s =
           (True, tick (Suc (length data)) (emit (txn_wave (wiring_of s) (push_bit 1 addr # data)) s))"
proof -
  have a: "all_acked (ack_at s) (nreads s) (length (push_bit 1 addr # data))"
    using assms by (rule always_acked_all)
  have c: "clocked (ack_at s) (nreads s) (push_bit 1 addr # data) = push_bit 1 addr # data"
    using a by (rule clocked_all_acked)
  show ?thesis
    using a by (simp only: i2c_write_effect c) simp
qed

lemma send_command_acked:
  "always_acked s \<Longrightarrow>
     snd (ssd1306_send_command c s) =
       tick 3 (emit (txn_wave (wiring_of s)
                 [push_bit 1 (ssd1306_i2c_addr s), SSD1306_CONTROL_CMD_SINGLE, c]) s)"
  by (simp add: ssd1306_send_command_def i2c_write_acked numeral_3_eq_3)

lemma i2c_write_reg_as_write: "i2c_write_reg addr reg d s = i2c_write addr (reg # d) s"
  by (simp only: i2c_write_effect i2c_write_reg_effect) simp

lemma send_data_acked:
  "always_acked s \<Longrightarrow>
     snd (ssd1306_send_data d s) =
       tick (length d + 2) (emit (txn_wave (wiring_of s)
                 (push_bit 1 (ssd1306_i2c_addr s) # SSD1306_CONTROL_DATA_STREAM # d)) s)"
  by (simp add: ssd1306_send_data_effect i2c_write_reg_as_write i2c_write_acked)

lemma send_commands_acked:
  "always_acked s \<Longrightarrow>
     foldl (\<lambda>s c. snd (ssd1306_send_command c s)) s cs =
       tick (3 * length cs)
         (emit (concat (map (\<lambda>c. txn_wave (wiring_of s)
                  [push_bit 1 (ssd1306_i2c_addr s), SSD1306_CONTROL_CMD_SINGLE, c]) cs)) s)"
proof (induction cs arbitrary: s)
  case Nil
  show ?case by simp
next
  case (Cons c cs)
  have "always_acked (snd (ssd1306_send_command c s))"
    using Cons.prems by (simp add: send_command_acked)
  from Cons.IH [OF this] show ?case
    using Cons.prems by (simp add: send_command_acked)
qed

lemma display_as_fold:
  "ssd1306_display s =
     (let s1 = foldl (\<lambda>s c. snd (ssd1306_send_command c s)) s
                 [SSD1306_CMD_COLUMN_ADDR, 0, 0x7F, SSD1306_CMD_PAGE_ADDR, 0, 7]
      in snd (ssd1306_send_data (ssd1306_buffer s1) s1))"
  by (simp add: ssd1306_display_def Let_def SSD1306_WIDTH_def SSD1306_HEIGHT_def)

lemma display_acked:
  assumes "always_acked s"
  shows "ssd1306_display s =
     tick (length (ssd1306_buffer s) + 20)
       (emit (concat (map (txn_wave (wiring_of s))
          (map (\<lambda>c. [push_bit 1 (ssd1306_i2c_addr s), 0x80, c]) [0x21, 0, 0x7F, 0x22, 0, 7] @
           [push_bit 1 (ssd1306_i2c_addr s) # 0x40 # ssd1306_buffer s]))) s)"
proof -
  have f: "foldl (\<lambda>s c. snd (ssd1306_send_command c s)) s
             [SSD1306_CMD_COLUMN_ADDR, 0, 0x7F, SSD1306_CMD_PAGE_ADDR, 0, 7] =
      tick (3 * length [SSD1306_CMD_COLUMN_ADDR, 0, 0x7F, SSD1306_CMD_PAGE_ADDR, 0, 7])
        (emit (concat (map (\<lambda>c. txn_wave (wiring_of s)
                  [push_bit 1 (ssd1306_i2c_addr s), SSD1306_CONTROL_CMD_SINGLE, c])
             [SSD1306_CMD_COLUMN_ADDR, 0, 0x7F, SSD1306_CMD_PAGE_ADDR, 0, 7])) s)"
    using assms by (rule send_commands_acked)
  show ?thesis
    unfolding display_as_fold f Let_def
    using assms
    by (simp add: send_data_acked SSD1306_CMD_COLUMN_ADDR_def SSD1306_CMD_PAGE_ADDR_def
        SSD1306_CONTROL_CMD_SINGLE_def SSD1306_CONTROL_DATA_STREAM_def)
qed

lemma always_acked_board: "always_acked (board acks_all)"
  by (simp add: always_acked_def ack_at_board_all)

lemma display_board_transactions:
  "bus_transactions (wiring_of (board acks_all))
     (emitted (board acks_all) (ssd1306_display (board acks_all))) =
   map (\<lambda>c. [0x78, 0x80, c]) [0x21, 0, 0x7F, 0x22, 0, 7] @ [0x78 # 0x40 # replicate 1024 0]"
proof -
  have e: "emitted (board acks_all) (ssd1306_display (board acks_all)) =
      concat (map (txn_wave (wiring_of (board acks_all)))
        (map (\<lambda>c. [push_bit 1 (ssd1306_i2c_addr (board acks_all)), 0x80, c])
           [0x21, 0, 0x7F, 0x22, 0, 7] @
         [push_bit 1 (ssd1306_i2c_addr (board acks_all)) # 0x40 # ssd1306_buffer (board acks_all)]))"
    by (simp only: display_acked [OF always_acked_board] emitted_effect)
  have b: "ssd1306_i2c_addr (board acks_all) = 0x3C" "ssd1306_buffer (board acks_all) = replicate 1024 0"
    by (simp_all add: board_def)
  have p: "push_bit 1 (0x3C :: u8) = 0x78"
    by simp
  show ?thesis
    by (simp only: e bus_transactions_txns [OF valid_wiring_board] b p)
qed




section \<open>The bring-up sequence\<close>

lemma fields_clear [simp]:
  "trace (ssd1306_clear s) = trace s" "nreads (ssd1306_clear s) = nreads s"
  "hw_in (ssd1306_clear s) = hw_in s" "wiring_of (ssd1306_clear s) = wiring_of s"
  "ssd1306_i2c_addr (ssd1306_clear s) = ssd1306_i2c_addr s"
  "ssd1306_buffer (ssd1306_clear s) = replicate 1024 0"
  by (simp_all add: ssd1306_clear_def wiring_of_def BUFFER_SIZE_def SSD1306_WIDTH_def
      SSD1306_HEIGHT_def)

lemma busy_wait_emit: "busy_wait n s = emit [BusyWait n] s"
  by (simp add: busy_wait_def emit_def)

lemma init_as_fold:
  "ssd1306_init config s =
     (case i2c_init \<lparr>scl_pin = oled_scl_pin config, sda_pin = oled_sda_pin config,
                       freq_hz = 400000\<rparr> (s\<lparr>ssd1306_i2c_addr := i2c_addr config\<rparr>) of
        None \<Rightarrow> None
      | Some s1 \<Rightarrow>
          Some (True, ssd1306_display (ssd1306_clear
            (foldl (\<lambda>s c. snd (ssd1306_send_command c s)) (busy_wait 100000 s1)
               [0xAE, 0xD5, 0x80, 0xA8, 0x3F, 0xD3, 0x00, 0x40, 0x8D, 0x14, 0x20, 0x00, 0xA1,
                0xC8, 0xDA, 0x12, 0x81, 0xCF, 0xD9, 0xF1, 0xDB, 0x40, 0xA4, 0xA6, 0xAF]))))"
  by (simp add: ssd1306_init_def Let_def SSD1306_HEIGHT_def
      SSD1306_CMD_DISPLAY_OFF_def SSD1306_CMD_SET_DISPLAY_CLK_DIV_def SSD1306_CMD_SET_MULTIPLEX_def
      SSD1306_CMD_SET_DISPLAY_OFFSET_def SSD1306_CMD_SET_START_LINE_def SSD1306_CMD_CHARGE_PUMP_def
      SSD1306_CMD_MEMORY_MODE_def SSD1306_CMD_SEG_REMAP_def SSD1306_CMD_COM_SCAN_DEC_def
      SSD1306_CMD_SET_COM_PINS_def SSD1306_CMD_SET_CONTRAST_def SSD1306_CMD_SET_PRECHARGE_def
      SSD1306_CMD_SET_VCOM_DETECT_def SSD1306_CMD_DISPLAY_ALL_ON_RESUME_def
      SSD1306_CMD_NORMAL_DISPLAY_def SSD1306_CMD_DISPLAY_ON_def
      split: option.splits)

text \<open>
  On a valid pin \<open>gpio_set_opendrain\<close> reads two registers (the pin's \<open>IO_MUX\<close>
  register and \<open>GPIO_ENABLE\<close>), so \<open>i2c_init\<close> on a valid wiring performs four
  reads. None of them is an acknowledge sample; every read after them is one.
\<close>

lemma gpio_set_opendrain_valid:
  assumes "0 \<le> p" "p \<le> 21"
  shows "\<exists>evs. gpio_set_opendrain p s = tick 2 (emit evs s)"
proof -
  from assms have "\<not> (p < 0 \<or> p > 21)"
    by simp
  then have "gpio_set_opendrain p s =
      tick 2 (emit [RegRead (GPIO_PIN_MUX_REG p),
        RegWrite (GPIO_PIN_MUX_REG p)
          (((((((hw_in s (nreads s) AND NOT (push_bit MCU_SEL_SHIFT 0x7)) OR
                push_bit MCU_SEL_SHIFT 1) OR (FUN_IE OR FUN_WPU)) AND NOT FUN_WPD) AND
              NOT (push_bit FUN_DRV_SHIFT 0x3)) OR push_bit FUN_DRV_SHIFT 2)),
        RegRead GPIO_ENABLE_REG,
        RegWrite GPIO_ENABLE_REG (hw_in s (Suc (nreads s)) OR pin_bit p)] s)"
    by (simp add: gpio_set_opendrain_def REG_SET_BIT_def REG_READ_effect REG_WRITE_effect Let_def)
  then show ?thesis by blast
qed

lemma i2c_init_effect_valid:
  assumes f: "freq_hz cfg \<noteq> 0"
    and c: "0 \<le> scl_pin cfg" "scl_pin cfg \<le> 21"
    and d: "0 \<le> sda_pin cfg" "sda_pin cfg \<le> 21"
  shows "\<exists>evs. i2c_init cfg s =
           Some (tick 4 (emit evs (s\<lparr>scl_gpio := scl_pin cfg, sda_gpio := sda_pin cfg,
                  i2c_delay_cycles := (160000000 div freq_hz cfg) div 4\<rparr>)))"
proof -
  let ?s0 = "s\<lparr>scl_gpio := scl_pin cfg, sda_gpio := sda_pin cfg,
                  i2c_delay_cycles := (160000000 div freq_hz cfg) div 4\<rparr>"
  obtain e1 where 1: "gpio_set_opendrain (scl_pin cfg) ?s0 = tick 2 (emit e1 ?s0)"
    using gpio_set_opendrain_valid [OF c] by blast
  obtain e2 where 2: "gpio_set_opendrain (sda_pin cfg) (tick 2 (emit e1 ?s0)) =
      tick 2 (emit e2 (tick 2 (emit e1 ?s0)))"
    using gpio_set_opendrain_valid [OF d] by blast
  have "i2c_init cfg s = Some (tick 4 (emit (e1 @ e2 @
      release_line (wiring_of ?s0) (sda_pin cfg) @ release_line (wiring_of ?s0) (scl_pin cfg)) ?s0))"
    using f by (simp add: i2c_init_def Let_def 1 2 line_ops)
  then show ?thesis by blast
qed

lemma init_traffic_acked:
  assumes wired: "valid_wiring (init_wiring config)"
    and acks: "\<forall>k\<ge>nreads s + 4. hw_in s k AND pin_bit (oled_sda_pin config) = 0"
  shows "init_bus_traffic config s =
     concat (map (txn_wave (init_wiring config))
       (map (\<lambda>c. [push_bit 1 (i2c_addr config), 0x80, c])
          [0xAE, 0xD5, 0x80, 0xA8, 0x3F, 0xD3, 0x00, 0x40, 0x8D, 0x14, 0x20, 0x00, 0xA1,
           0xC8, 0xDA, 0x12, 0x81, 0xCF, 0xD9, 0xF1, 0xDB, 0x40, 0xA4, 0xA6, 0xAF,
           0x21, 0, 0x7F, 0x22, 0, 7] @
        [push_bit 1 (i2c_addr config) # 0x40 # replicate 1024 0]))"
proof -
  let ?cfg = "\<lparr>scl_pin = oled_scl_pin config, sda_pin = oled_sda_pin config, freq_hz = 400000\<rparr>"
  let ?s0 = "s\<lparr>ssd1306_i2c_addr := i2c_addr config\<rparr>"
  let ?cmds = "[0xAE, 0xD5, 0x80, 0xA8, 0x3F, 0xD3, 0x00, 0x40, 0x8D, 0x14, 0x20, 0x00, 0xA1,
                0xC8, 0xDA, 0x12, 0x81, 0xCF, 0xD9, 0xF1, 0xDB, 0x40, 0xA4, 0xA6, 0xAF] :: u8 list"
  have fr: "freq_hz ?cfg \<noteq> 0" by simp
  from wired have pins: "0 \<le> scl_pin ?cfg" "scl_pin ?cfg \<le> 21" "0 \<le> sda_pin ?cfg"
      "sda_pin ?cfg \<le> 21"
    by (simp_all add: valid_wiring_def init_wiring_def)
  from i2c_init_effect_valid [OF fr pins, of ?s0] obtain evs where
    i: "i2c_init ?cfg ?s0 = Some (tick 4 (emit evs (?s0\<lparr>scl_gpio := scl_pin ?cfg,
          sda_gpio := sda_pin ?cfg, i2c_delay_cycles := (160000000 div freq_hz ?cfg) div 4\<rparr>)))"
    by blast
  define s1 where "s1 = tick 4 (emit evs (?s0\<lparr>scl_gpio := scl_pin ?cfg,
          sda_gpio := sda_pin ?cfg, i2c_delay_cycles := (160000000 div freq_hz ?cfg) div 4\<rparr>))"
  define s2 where "s2 = busy_wait 100000 s1"
  have i': "i2c_init ?cfg ?s0 = Some s1"
    by (simp only: i s1_def)
  have w2: "wiring_of s2 = init_wiring config"
    by (simp add: s2_def s1_def busy_wait_emit wiring_of_def init_wiring_def)
  have a2: "ssd1306_i2c_addr s2 = i2c_addr config"
    by (simp add: s2_def s1_def busy_wait_emit)
  have k2: "always_acked s2"
    using acks by (simp add: s2_def s1_def busy_wait_emit always_acked_def ack_at_def)
  define s3 where "s3 = foldl (\<lambda>s c. snd (ssd1306_send_command c s)) s2 ?cmds"
  have f: "s3 = tick (3 * length ?cmds)
      (emit (concat (map (\<lambda>c. txn_wave (wiring_of s2)
          [push_bit 1 (ssd1306_i2c_addr s2), SSD1306_CONTROL_CMD_SINGLE, c]) ?cmds)) s2)"
    unfolding s3_def using k2 by (rule send_commands_acked)
  have k3: "always_acked (ssd1306_clear s3)"
    using k2 by (simp only: f always_acked_clear always_acked_step)
  have w3: "wiring_of s3 = init_wiring config" "ssd1306_i2c_addr s3 = i2c_addr config"
    by (simp_all only: f wiring_of_tick wiring_of_emit fields_tick fields_emit w2 a2)
  have t3: "trace s3 = trace s2 @ concat (map (\<lambda>c. txn_wave (init_wiring config)
          [push_bit 1 (i2c_addr config), 0x80, c]) ?cmds)"
    by (simp only: f fields_tick fields_emit w2 a2 SSD1306_CONTROL_CMD_SINGLE_def)
  have init: "ssd1306_init config s = Some (True, ssd1306_display (ssd1306_clear s3))"
    by (simp only: init_as_fold i' option.case s3_def s2_def)
  have "init_bus_traffic config s = emitted s2 (ssd1306_display (ssd1306_clear s3))"
    by (simp only: init_bus_traffic_def i' init option.case prod.case s2_def)
  also have "\<dots> = concat (map (\<lambda>c. txn_wave (init_wiring config)
          [push_bit 1 (i2c_addr config), 0x80, c]) ?cmds) @
      concat (map (txn_wave (init_wiring config))
          (map (\<lambda>c. [push_bit 1 (i2c_addr config), 0x80, c]) [0x21, 0, 0x7F, 0x22, 0, 7] @
           [push_bit 1 (i2c_addr config) # 0x40 # replicate 1024 0]))"
    by (simp only: display_acked [OF k3] fields_clear w3 emitted_def fields_tick fields_emit t3)
      simp
  also have "\<dots> = concat (map (txn_wave (init_wiring config))
       (map (\<lambda>c. [push_bit 1 (i2c_addr config), 0x80, c])
          [0xAE, 0xD5, 0x80, 0xA8, 0x3F, 0xD3, 0x00, 0x40, 0x8D, 0x14, 0x20, 0x00, 0xA1,
           0xC8, 0xDA, 0x12, 0x81, 0xCF, 0xD9, 0xF1, 0xDB, 0x40, 0xA4, 0xA6, 0xAF,
           0x21, 0, 0x7F, 0x22, 0, 7] @
        [push_bit 1 (i2c_addr config) # 0x40 # replicate 1024 0]))"
    by simp
  finally show ?thesis .
qed

lemma init_transactions_acked:
  assumes "valid_wiring (init_wiring config)"
    and "\<forall>k\<ge>nreads s + 4. hw_in s k AND pin_bit (oled_sda_pin config) = 0"
  shows "bus_transactions (init_wiring config) (init_bus_traffic config s) =
       map (\<lambda>c. [push_bit 1 (i2c_addr config), 0x80, c])
          [0xAE, 0xD5, 0x80, 0xA8, 0x3F, 0xD3, 0x00, 0x40, 0x8D, 0x14, 0x20, 0x00, 0xA1,
           0xC8, 0xDA, 0x12, 0x81, 0xCF, 0xD9, 0xF1, 0xDB, 0x40, 0xA4, 0xA6, 0xAF,
           0x21, 0, 0x7F, 0x22, 0, 7] @
        [push_bit 1 (i2c_addr config) # 0x40 # replicate 1024 0]"
  by (simp only: init_traffic_acked [OF assms] bus_transactions_txns [OF assms(1)])

lemma valid_wiring_oled: "valid_wiring (init_wiring oled_config)"
  by (simp add: valid_wiring_def init_wiring_def oled_config_def)

lemma power_on_acks_all:
  "\<forall>k\<ge>nreads (power_on acks_all) + 4.
     hw_in (power_on acks_all) k AND pin_bit (oled_sda_pin oled_config) = 0"
  by (simp add: power_on_def acks_all_def)

lemma power_on_acks_after_setup:
  "\<forall>k\<ge>nreads (power_on acks_after_setup) + 4.
     hw_in (power_on acks_after_setup) k AND pin_bit (oled_sda_pin oled_config) = 0"
  by (simp add: power_on_def acks_after_setup_def)

lemma power_on_setup_reads_high:
  "hw_in (power_on acks_after_setup) 0 AND pin_bit (oled_sda_pin oled_config) \<noteq> 0"
  by (simp add: power_on_def acks_after_setup_def oled_config_def pin_bit_def)

lemma init_transactions_oled:
  "bus_transactions (init_wiring oled_config) (init_bus_traffic oled_config (power_on acks_all)) =
     map (\<lambda>c. [0x78, 0x80, c])
        [0xAE, 0xD5, 0x80, 0xA8, 0x3F, 0xD3, 0x00, 0x40, 0x8D, 0x14, 0x20, 0x00, 0xA1,
         0xC8, 0xDA, 0x12, 0x81, 0xCF, 0xD9, 0xF1, 0xDB, 0x40, 0xA4, 0xA6, 0xAF,
         0x21, 0, 0x7F, 0x22, 0, 7] @
     [0x78 # 0x40 # replicate 1024 0]"
proof -
  have "push_bit 1 (i2c_addr oled_config) = 0x78"
    by (simp add: oled_config_def)
  then show ?thesis
    by (simp only: init_transactions_acked [OF valid_wiring_oled power_on_acks_all])
qed




end
